theory Spec2Isabelle
  imports Complex_Main
begin

section \<open>Errors, results and the evaluation monad\<close>

text \<open>
  Every \<^verbatim>\<open>raise\<close> and failing \<^verbatim>\<open>assert\<close> of
  \<^verbatim>\<open>torch_bfn/networks.py\<close> is a value of \<open>error\<close>. The specification's names are
  \<^item> \<open>ShapeMismatch\<close>: the \<^verbatim>\<open>ValueError\<close> of the label-shape check; it carries the batch
    size of the expected shape \<open>(batch,)\<close> and the offending shape;
  \<^item> \<open>DimensionMismatch\<close>: the failing assertion on the spatial size in
    \<^verbatim>\<open>Unet.forward\<close>; it carries the trailing two sizes and the length of \<open>downs\<close>;
  \<^item> \<open>ConfigurationError\<close>: the failing assertion of \<^verbatim>\<open>Attend.__init__\<close>
    ("Flash Attention requires torch>=2.0").
  The remaining constructors are the other Python exceptions the code can raise.
  Floating-point numbers are modelled by reals; tensor extents are natural numbers.
\<close>

datatype error =
    ShapeMismatch nat "nat list"
  | DimensionMismatch "nat list" nat
  | ConfigurationError
  | AssertionError
  | IndexError
  | ZeroDivisionError
  | TypeError
  | ValueError
  | RuntimeError

type_synonym ('a, 's) M = "'s \<Rightarrow> (error + 'a) \<times> 's"

definition returnM :: "'a \<Rightarrow> ('a, 's) M" where
  "returnM x = (\<lambda>s. (Inr x, s))"

definition raiseM :: "error \<Rightarrow> ('a, 's) M" where
  "raiseM e = (\<lambda>s. (Inl e, s))"

definition liftE :: "error + 'a \<Rightarrow> ('a, 's) M" where
  "liftE r = (\<lambda>s. (r, s))"

definition bindM :: "('a, 's) M \<Rightarrow> ('a \<Rightarrow> ('b, 's) M) \<Rightarrow> ('b, 's) M" where
  "bindM m f = (\<lambda>s. case m s of (Inl e, s') \<Rightarrow> (Inl e, s') | (Inr x, s') \<Rightarrow> f x s')"

definition bindE :: "error + 'a \<Rightarrow> ('a \<Rightarrow> error + 'b) \<Rightarrow> error + 'b" where
  "bindE r f = (case r of Inl e \<Rightarrow> Inl e | Inr x \<Rightarrow> f x)"

section \<open>Helpers of \<^verbatim>\<open>torch_bfn.utils\<close>\<close>

text \<open>
  Modelled from the spec: \<^verbatim>\<open>torch_bfn/utils.py\<close> is not among the sources. The
  specification says that an option is used when given and a default otherwise ("the
  caller-supplied override if given, else the network's configured default"), and that the
  per-stage attention options are given as a "scalar or per-stage list".
\<close>

definition exists :: "'a option \<Rightarrow> bool" where
  "exists v = (v \<noteq> None)"

definition default :: "'a option \<Rightarrow> 'a \<Rightarrow> 'a" where
  "default v d = (case v of Some x \<Rightarrow> x | None \<Rightarrow> d)"

datatype 'a scalar_or_tuple = Scalar 'a | Tuple "'a list"

definition cast_tuple :: "'a scalar_or_tuple \<Rightarrow> nat \<Rightarrow> 'a list" where
  "cast_tuple t n = (case t of Tuple xs \<Rightarrow> xs | Scalar x \<Rightarrow> replicate n x)"

section \<open>Modules\<close>

text \<open>
  A module value is what a constructor of \<^verbatim>\<open>networks.py\<close> (or of \<^verbatim>\<open>torch.nn\<close>) builds:
  the layer's kind, its hyperparameters and its sub-modules. The learned weights live in
  the parameter store of the evaluation state and are addressed by the module's name.
\<close>

datatype AttentionConfig =
  AttentionConfig (enable_flash: bool) (enable_math: bool) (enable_mem_efficient: bool)

datatype module =
    Identity
  | SiLU
  | GELU
  | Dropout real
  | Linear nat nat
  | LayerNorm nat
  | Conv2d nat nat nat nat
  | GroupNorm nat nat
  | Embedding nat nat
  | Upsample
  | Rearrange
  | Sequential "module list"
  | SinusoidalPosEmb nat
  | RandomOrLearnedSinusoidalPosEmb nat bool
  | LinearBlock module module module module
  | LinearResnetBlock module module module module
  | Block module module module
  | ResnetBlock "module option" module module module
  | RMSNorm nat
  | Attend real bool AttentionConfig "AttentionConfig option"
  | LinearAttention nat nat module module module
  | Attention nat module module module module

text \<open>
  The fields, in order: \<open>Linear in out\<close>; \<open>Conv2d in out kernel padding\<close>;
  \<open>GroupNorm groups channels\<close>; \<open>Embedding classes dim\<close>; \<open>Upsample\<close> is
  \<^verbatim>\<open>nn.Upsample(scale_factor=2, mode="nearest")\<close>; \<open>Rearrange\<close> is the space-to-depth
  pattern of \<^verbatim>\<open>downsample\<close>; \<open>RandomOrLearnedSinusoidalPosEmb half_dim is_random\<close>;
  \<open>LinearBlock proj norm act dropout\<close>; \<open>LinearResnetBlock mlp block1 block2 res_proj\<close>;
  \<open>Block proj norm act\<close>; \<open>ResnetBlock mlp block1 block2 res_conv\<close>;
  \<open>Attend dropout flash cpu_config cuda_config\<close>;
  \<open>LinearAttention heads dim_head norm to_qkv to_out\<close>;
  \<open>Attention heads norm attend to_qkv to_out\<close>.
\<close>

type_synonym name = "string \<times> nat list"

section \<open>Tensors, the library and the evaluation state\<close>

text \<open>Integer label tensors are concrete: a shape and the row-major values.\<close>

record labels =
  lshape :: "nat list"
  lvalues :: "int list"

text \<open>
  Floating-point tensors are values of a type \<open>'t\<close>. The operations of PyTorch that the
  source calls are the fields of a record \<open>torch\<close>; their code is not part of the
  repository. A library layer reads the parameter store \<open>'p\<close> and the training flag and
  may draw from the random generator \<open>'g\<close>.
\<close>

record ('t, 'p, 'g) torch =
  shape_of :: "'t \<Rightarrow> nat list"
  apply_module :: "'p \<Rightarrow> bool \<Rightarrow> name \<Rightarrow> module \<Rightarrow> 't option list \<Rightarrow> 'g \<Rightarrow> (error + 't) \<times> 'g"
  embedding :: "'p \<Rightarrow> name \<Rightarrow> module \<Rightarrow> labels \<Rightarrow> error + 't"
  parameter :: "'p \<Rightarrow> name \<Rightarrow> 't"
  rand :: "nat \<Rightarrow> 'g \<Rightarrow> real list \<times> 'g"
  randint :: "int \<Rightarrow> int \<Rightarrow> nat \<Rightarrow> 'g \<Rightarrow> int list \<times> 'g"
  where_rows :: "bool list \<Rightarrow> 't \<Rightarrow> 't \<Rightarrow> error + 't"
  expand :: "'t \<Rightarrow> int list \<Rightarrow> error + 't"
  unsqueeze_last :: "'t \<Rightarrow> error + 't"
  cat :: "'t list \<Rightarrow> nat \<Rightarrow> error + 't"
  add :: "'t \<Rightarrow> 't \<Rightarrow> error + 't"
  sub :: "'t \<Rightarrow> 't \<Rightarrow> error + 't"
  mul :: "'t \<Rightarrow> 't \<Rightarrow> error + 't"
  divide_t :: "'t \<Rightarrow> 't \<Rightarrow> error + 't"
  scale_by :: "'t \<Rightarrow> real \<Rightarrow> 't"
  std_keepdim :: "'t \<Rightarrow> nat list \<Rightarrow> error + 't"

text \<open>
  \<open>where_rows mask a b\<close> is \<^verbatim>\<open>t.where(mask[:, None], a, b)\<close>;
  \<open>unsqueeze_last x\<close> is \<^verbatim>\<open>x[:, None]\<close>; \<open>std_keepdim x dims\<close> is
  \<^verbatim>\<open>t.std(x, dim=dims, keepdim=True)\<close>; \<open>scale_by x c\<close> multiplies by a Python float.
\<close>

record ('p, 'g) state =
  params :: 'p
  training :: bool
  rng :: 'g
  executed :: "name list"

text \<open>
  Calling a module runs the library on the current parameters and generator and records
  the module's name in \<open>executed\<close>, the trace of layers run so far.
\<close>

definition callM ::
  "('t, 'p, 'g) torch \<Rightarrow> name \<Rightarrow> module \<Rightarrow> 't option list \<Rightarrow> ('t, ('p, 'g) state) M" where
  "callM T n m args = (\<lambda>s.
     case apply_module T (params s) (training s) n m args (rng s) of
       (r, g') \<Rightarrow> (r, s\<lparr>rng := g', executed := executed s @ [n]\<rparr>))"

definition embeddingM ::
  "('t, 'p, 'g) torch \<Rightarrow> name \<Rightarrow> module \<Rightarrow> labels \<Rightarrow> ('t, ('p, 'g) state) M" where
  "embeddingM T n m l = (\<lambda>s.
     (embedding T (params s) n m l, s\<lparr>executed := executed s @ [n]\<rparr>))"

definition randM :: "('t, 'p, 'g) torch \<Rightarrow> nat \<Rightarrow> (real list, ('p, 'g) state) M" where
  "randM T n = (\<lambda>s. case rand T n (rng s) of (u, g') \<Rightarrow> (Inr u, s\<lparr>rng := g'\<rparr>))"

definition randintM ::
  "('t, 'p, 'g) torch \<Rightarrow> int \<Rightarrow> int \<Rightarrow> nat \<Rightarrow> (labels, ('p, 'g) state) M" where
  "randintM T lo hi n = (\<lambda>s. case randint T lo hi n (rng s) of
     (v, g') \<Rightarrow> (Inr \<lparr>lshape = [n], lvalues = v\<rparr>, s\<lparr>rng := g'\<rparr>))"

definition parameterM :: "('t, 'p, 'g) torch \<Rightarrow> name \<Rightarrow> ('t, ('p, 'g) state) M" where
  "parameterM T n = (\<lambda>s. (Inr (parameter T (params s) n), s))"

section \<open>\<^verbatim>\<open>BFNetwork.forward_with_cond_scale\<close>\<close>

text \<open>
  \<^verbatim>\<open>forward\<close> is abstract in \<^verbatim>\<open>BFNetwork\<close>, so it is a parameter here: it takes the
  remaining arguments \<open>args\<close> and the keyword \<^verbatim>\<open>cond_drop_prob\<close>.
\<close>

definition forward_with_cond_scale ::
  "('t, 'p, 'g) torch \<Rightarrow> ('a \<Rightarrow> real option \<Rightarrow> ('t, ('p, 'g) state) M) \<Rightarrow> 'a \<Rightarrow> real \<Rightarrow> real
     \<Rightarrow> ('t, ('p, 'g) state) M" where
  "forward_with_cond_scale T forward args cond_scale rescaled_phi =
     bindM (forward args (Some 0)) (\<lambda>logits.
     if cond_scale = 1 then returnM logits
     else
       bindM (forward args (Some 1)) (\<lambda>null_logits.
       bindM (liftE (bindE (sub T logits null_logits) (\<lambda>d.
                     add T null_logits (scale_by T d cond_scale)))) (\<lambda>scaled_logits.
       if rescaled_phi = 0 then returnM scaled_logits
       else
         let std_fn = (\<lambda>x. std_keepdim T x [1 ..< length (shape_of T scaled_logits)]) in
         liftE (bindE (std_fn logits) (\<lambda>sl.
                bindE (std_fn scaled_logits) (\<lambda>ss.
                bindE (divide_t T sl ss) (\<lambda>ratio.
                bindE (mul T scaled_logits ratio) (\<lambda>rescaled_logits.
                add T (scale_by T rescaled_logits rescaled_phi)
                      (scale_by T scaled_logits (1 - rescaled_phi))))))))))"

section \<open>Construction\<close>

text \<open>
  What \<^verbatim>\<open>Attend.__init__\<close> reads from its environment: the version of the installed
  PyTorch (major, minor, micro), whether CUDA is available and the compute capability of
  the CUDA device.
\<close>

record env =
  torch_version :: "nat \<times> nat \<times> nat"
  cuda_is_available :: bool
  device_major :: nat
  device_minor :: nat

fun version_less :: "nat \<times> nat \<times> nat \<Rightarrow> nat \<times> nat \<times> nat \<Rightarrow> bool" where
  "version_less (a, b, c) (x, y, z) = (a < x \<or> (a = x \<and> (b < y \<or> (b = y \<and> c < z))))"

fun mapE :: "('a \<Rightarrow> error + 'b) \<Rightarrow> 'a list \<Rightarrow> error + 'b list" where
  "mapE f [] = Inr []"
| "mapE f (x # xs) = bindE (f x) (\<lambda>y. bindE (mapE f xs) (\<lambda>ys. Inr (y # ys)))"

definition enumerate_list :: "'a list \<Rightarrow> (nat \<times> 'a) list" where
  "enumerate_list xs = zip [0 ..< length xs] xs"

text \<open>
  \<^verbatim>\<open>nn.GroupNorm\<close> rejects a group count that does not divide the channel count (a
  \<^verbatim>\<open>ValueError\<close>); the remainder by a zero group count is a \<^verbatim>\<open>ZeroDivisionError\<close>.
\<close>

definition GroupNorm_init :: "nat \<Rightarrow> nat \<Rightarrow> error + module" where
  "GroupNorm_init num_groups num_channels =
     (if num_groups = 0 then Inl ZeroDivisionError
      else if num_channels mod num_groups \<noteq> 0 then Inl ValueError
      else Inr (GroupNorm num_groups num_channels))"

definition RandomOrLearnedSinusoidalPosEmb_init :: "nat \<Rightarrow> bool \<Rightarrow> error + module" where
  "RandomOrLearnedSinusoidalPosEmb_init dim' is_random =
     (if dim' mod 2 \<noteq> 0 then Inl AssertionError
      else Inr (RandomOrLearnedSinusoidalPosEmb (dim' div 2) is_random))"

definition LinearBlock_init :: "nat \<Rightarrow> nat \<Rightarrow> real \<Rightarrow> module" where
  "LinearBlock_init in_dim out_dim dropout_p =
     LinearBlock (Linear in_dim out_dim) (LayerNorm out_dim) SiLU (Dropout dropout_p)"

definition LinearResnetBlock_init ::
  "nat \<Rightarrow> nat \<Rightarrow> nat option \<Rightarrow> nat option \<Rightarrow> real \<Rightarrow> module" where
  "LinearResnetBlock_init in_dim out_dim time_emb_dim cond_emb_dim dropout_p =
     (let mlp_dim = default time_emb_dim 0 + default cond_emb_dim 0;
          mlp = Sequential [SiLU, Linear mlp_dim (out_dim * 2)];
          block1 = LinearBlock_init in_dim out_dim dropout_p;
          block2 = LinearBlock_init out_dim out_dim dropout_p;
          res_proj = (if in_dim \<noteq> out_dim then Linear in_dim out_dim else Identity)
      in LinearResnetBlock mlp block1 block2 res_proj)"

definition upsample :: "nat \<Rightarrow> nat option \<Rightarrow> module" where
  "upsample dim' out_dim = Sequential [Upsample, Conv2d dim' (default out_dim dim') 3 1]"

definition downsample :: "nat \<Rightarrow> nat option \<Rightarrow> module" where
  "downsample dim' out_dim = Sequential [Rearrange, Conv2d (dim' * 4) (default out_dim dim') 1 0]"

definition Block_init :: "nat \<Rightarrow> nat \<Rightarrow> nat \<Rightarrow> error + module" where
  "Block_init in_dim out_dim groups =
     (if groups = 0 then Inl ZeroDivisionError
      else
        let groups' = (if out_dim mod groups \<noteq> 0 then 1 else groups);
            proj = Conv2d in_dim out_dim 3 1
        in bindE (GroupNorm_init groups' out_dim) (\<lambda>norm. Inr (Block proj norm SiLU)))"

definition ResnetBlock_init ::
  "nat \<Rightarrow> nat \<Rightarrow> nat option \<Rightarrow> nat option \<Rightarrow> nat \<Rightarrow> error + module" where
  "ResnetBlock_init in_dim out_dim time_emb_dim class_emb_dim groups =
     (let mlp_dim = default time_emb_dim 0 + default class_emb_dim 0;
          mlp = (if exists time_emb_dim \<or> exists class_emb_dim
                 then Some (Sequential [SiLU, Linear mlp_dim (out_dim * 2)]) else None)
      in bindE (Block_init in_dim out_dim groups) (\<lambda>block1.
         bindE (Block_init out_dim out_dim groups) (\<lambda>block2.
         let res_conv = (if in_dim \<noteq> out_dim then Conv2d in_dim out_dim 1 0 else Identity)
         in Inr (ResnetBlock mlp block1 block2 res_conv))))"

definition Attend_init :: "env \<Rightarrow> real \<Rightarrow> bool \<Rightarrow> error + module" where
  "Attend_init E dropout flash =
     (if flash \<and> version_less (torch_version E) (2, 0, 0) then Inl ConfigurationError
      else
        let cpu_config = AttentionConfig True True True in
        if \<not> cuda_is_available E \<or> \<not> flash then Inr (Attend dropout flash cpu_config None)
        else if device_major E = 8 \<and> device_minor E = 0
        then Inr (Attend dropout flash cpu_config (Some (AttentionConfig True False False)))
        else Inr (Attend dropout flash cpu_config (Some (AttentionConfig False True True))))"

text \<open>\<^verbatim>\<open>dim_head**-0.5\<close> raises \<^verbatim>\<open>ZeroDivisionError\<close> for \<^verbatim>\<open>dim_head = 0\<close>.\<close>

definition LinearAttention_init :: "nat \<Rightarrow> nat \<Rightarrow> nat \<Rightarrow> error + module" where
  "LinearAttention_init dim' heads dim_head =
     (if dim_head = 0 then Inl ZeroDivisionError
      else
        let hidden_dim = dim_head * heads
        in Inr (LinearAttention heads dim_head (RMSNorm dim') (Conv2d dim' (hidden_dim * 3) 1 0)
                  (Sequential [Conv2d hidden_dim dim' 1 0, RMSNorm dim'])))"

definition Attention_init :: "env \<Rightarrow> nat \<Rightarrow> nat \<Rightarrow> nat \<Rightarrow> bool \<Rightarrow> error + module" where
  "Attention_init E dim' heads dim_head flash =
     (let hidden_dim = dim_head * heads
      in bindE (Attend_init E 0 flash) (\<lambda>attend.
         Inr (Attention heads (RMSNorm dim') attend (Conv2d dim' (hidden_dim * 3) 1 0)
                (Conv2d hidden_dim dim' 1 0))))"

subsection \<open>\<^verbatim>\<open>Unet.__init__\<close>\<close>

record unet_args =
  a_dim :: nat
  a_dim_mults :: "nat list"
  a_channels :: nat
  a_init_dim :: "nat option"
  a_out_dim :: "nat option"
  a_num_classes :: "nat option"
  a_cond_drop_prob :: real
  a_resnet_block_groups :: nat
  a_learned_sinusoidal_cond :: bool
  a_learned_sinusoidal_dim :: nat
  a_random_fourier_features :: bool
  a_full_attn :: "bool scalar_or_tuple"
  a_attn_heads :: "nat scalar_or_tuple"
  a_attn_dim_head :: "nat scalar_or_tuple"
  a_flash_attn :: bool

type_synonym stage = "module \<times> module \<times> module \<times> module"

record BFNetwork =
  cond_dim :: "nat option"
  is_conditional_model :: bool

record Unet = BFNetwork +
  channels :: nat
  init_dim :: nat
  out_dim :: nat
  init_conv :: module
  random_or_learned_sinusoidal_cond :: bool
  time_mlp :: module
  cond_drop_prob :: real
  class_emb :: "module option"
  classes_mlp :: "module option"
  downs :: "stage list"
  mid_block1 :: module
  mid_attn :: module
  mid_block2 :: module
  ups :: "stage list"
  final_res_block :: module
  final_conv :: module

definition attn_class :: "env \<Rightarrow> bool \<Rightarrow> bool \<Rightarrow> nat \<Rightarrow> nat \<Rightarrow> nat \<Rightarrow> error + module" where
  "attn_class E flash full_attn_i d dim_head heads =
     (if full_attn_i then Attention_init E d heads dim_head flash
      else LinearAttention_init d heads dim_head)"

definition down_stage ::
  "env \<Rightarrow> bool \<Rightarrow> (nat \<Rightarrow> nat \<Rightarrow> error + module) \<Rightarrow> nat
     \<Rightarrow> nat \<times> (nat \<times> nat) \<times> bool \<times> nat \<times> nat \<Rightarrow> error + stage" where
  "down_stage E flash block_class num_resolutions =
     (\<lambda>(i, (in_dim, out_dim), full_attn_i, attn_heads_i, attn_dim_head_i).
        let is_last = (i + 1 \<ge> num_resolutions) in
        bindE (block_class in_dim in_dim) (\<lambda>b1.
        bindE (block_class in_dim in_dim) (\<lambda>b2.
        bindE (attn_class E flash full_attn_i in_dim attn_dim_head_i attn_heads_i) (\<lambda>attn.
        Inr (b1, b2, attn,
             if \<not> is_last then downsample in_dim (Some out_dim)
             else Conv2d in_dim out_dim 3 1)))))"

definition up_stage ::
  "env \<Rightarrow> bool \<Rightarrow> (nat \<Rightarrow> nat \<Rightarrow> error + module) \<Rightarrow> nat
     \<Rightarrow> nat \<times> (nat \<times> nat) \<times> bool \<times> nat \<times> nat \<Rightarrow> error + stage" where
  "up_stage E flash block_class len_in_out =
     (\<lambda>(i, (in_dim, out_dim), full_attn_i, attn_heads_i, attn_dim_head_i).
        let is_last = (i + 1 = len_in_out) in
        bindE (block_class (out_dim + in_dim) out_dim) (\<lambda>b1.
        bindE (block_class (out_dim + in_dim) out_dim) (\<lambda>b2.
        bindE (attn_class E flash full_attn_i out_dim attn_dim_head_i attn_heads_i) (\<lambda>attn.
        Inr (b1, b2, attn,
             if \<not> is_last then upsample out_dim (Some in_dim)
             else Conv2d out_dim in_dim 3 1)))))"

definition last_item :: "'a list \<Rightarrow> error + 'a" where
  "last_item xs = (if xs = [] then Inl IndexError else Inr (last xs))"

definition Unet_init :: "env \<Rightarrow> unet_args \<Rightarrow> error + Unet" where
  "Unet_init E a =
     (let dim' = a_dim a;
          channels' = a_channels a;
          init_dim' = default (a_init_dim a) dim';
          out_dim' = default (a_out_dim a) channels';
          init_conv' = Conv2d channels' init_dim' 7 3;
          dims = init_dim' # map (\<lambda>m. dim' * m) (a_dim_mults a);
          in_out = zip (butlast dims) (tl dims);
          time_dim = dim' * 4;
          rl = (a_learned_sinusoidal_cond a \<or> a_random_fourier_features a)
      in
      bindE (if rl
             then bindE (RandomOrLearnedSinusoidalPosEmb_init (a_learned_sinusoidal_dim a)
                           (a_random_fourier_features a))
                    (\<lambda>m. Inr (m, a_learned_sinusoidal_dim a + 1))
             else Inr (SinusoidalPosEmb dim', dim')) (\<lambda>(sinu_pos_emb, fourier_dim).
      let time_mlp' = Sequential [sinu_pos_emb, Linear fourier_dim time_dim, GELU,
                                  Linear time_dim time_dim];
          conditional = exists (a_num_classes a);
          classes_dim = (if conditional then Some (dim' * 4) else None);
          class_emb' = (case a_num_classes a of
                          Some n \<Rightarrow> Some (Embedding n dim') | None \<Rightarrow> None);
          classes_mlp' = (if conditional
                          then Some (Sequential [Linear dim' (dim' * 4), GELU,
                                                 Linear (dim' * 4) (dim' * 4)])
                          else None);
          cond_drop_prob' = (if conditional then a_cond_drop_prob a else 1);
          num_stages = length (a_dim_mults a);
          full_attn = cast_tuple (a_full_attn a) num_stages;
          attn_heads = cast_tuple (a_attn_heads a) num_stages;
          attn_dim_head = cast_tuple (a_attn_dim_head a) num_stages
      in
      if length full_attn \<noteq> length (a_dim_mults a) then Inl AssertionError
      else
        let num_resolutions = length in_out;
            block_class = (\<lambda>i out. ResnetBlock_init i out (Some time_dim) classes_dim
                                      (a_resnet_block_groups a))
        in
        bindE (mapE (down_stage E (a_flash_attn a) block_class num_resolutions)
                 (enumerate_list (zip in_out (zip full_attn (zip attn_heads attn_dim_head)))))
          (\<lambda>downs'.
        let mid_dim = last dims in
        bindE (block_class mid_dim mid_dim) (\<lambda>mid_block1'.
        bindE (last_item attn_heads) (\<lambda>heads_last.
        bindE (last_item attn_dim_head) (\<lambda>dim_head_last.
        bindE (Attention_init E mid_dim heads_last dim_head_last (a_flash_attn a)) (\<lambda>mid_attn'.
        bindE (block_class mid_dim mid_dim) (\<lambda>mid_block2'.
        bindE (mapE (up_stage E (a_flash_attn a) block_class (length in_out))
                 (enumerate_list (zip (rev in_out) (zip (rev full_attn)
                    (zip (rev attn_heads) (rev attn_dim_head))))))
          (\<lambda>ups'.
        bindE (block_class (dim' * 2) dim') (\<lambda>final_res_block'.
        Inr \<lparr>cond_dim = a_num_classes a, is_conditional_model = conditional,
             channels = channels', init_dim = init_dim', out_dim = out_dim',
             init_conv = init_conv',
             random_or_learned_sinusoidal_cond = rl,
             time_mlp = time_mlp', cond_drop_prob = cond_drop_prob',
             class_emb = class_emb', classes_mlp = classes_mlp',
             downs = downs', mid_block1 = mid_block1', mid_attn = mid_attn',
             mid_block2 = mid_block2', ups = ups',
             final_res_block = final_res_block',
             final_conv = Conv2d dim' out_dim' 1 0\<rparr>))))))))))"

subsection \<open>\<^verbatim>\<open>LinearNetwork.__init__\<close>\<close>

record linear_args =
  l_dim :: nat
  l_hidden_dims :: "nat list"
  l_cond_dim :: "nat option"
  l_cond_drop_prob :: real
  l_sin_dim :: nat
  l_time_dim :: nat
  l_random_time_emb :: bool
  l_dropout_p :: real

record LinearNetwork = BFNetwork +
  lin_time_mlp :: module
  lin_cond_drop_prob :: real
  cond_emb :: "module option"
  cond_mlp :: "module option"
  blocks :: "module list"
  final_proj :: module

definition LinearNetwork_init :: "linear_args \<Rightarrow> error + LinearNetwork" where
  "LinearNetwork_init a =
     (let dim' = l_dim a; time_dim = l_time_dim a; sin_dim = l_sin_dim a
      in
      bindE (RandomOrLearnedSinusoidalPosEmb_init sin_dim (l_random_time_emb a)) (\<lambda>pos_emb.
      let time_mlp' = Sequential [pos_emb, Linear (sin_dim + 1) time_dim, GELU,
                                  Linear time_dim time_dim];
          conditional = exists (l_cond_dim a);
          cond_embed_dim = (if conditional then Some (dim' * 4) else None);
          cond_emb' = (case l_cond_dim a of
                         Some n \<Rightarrow> Some (Embedding n dim') | None \<Rightarrow> None);
          cond_mlp' = (if conditional
                       then Some (Sequential [Linear dim' (dim' * 4), GELU,
                                              Linear (dim' * 4) (dim' * 4)])
                       else None);
          cond_drop_prob' = (if conditional then l_cond_drop_prob a else 1);
          hs = dim' # l_hidden_dims a;
          blocks' = map (\<lambda>(j, k). LinearResnetBlock_init j k (Some time_dim) cond_embed_dim
                                     (l_dropout_p a))
                      (zip (butlast hs) (tl hs))
      in Inr \<lparr>cond_dim = l_cond_dim a, is_conditional_model = conditional,
              lin_time_mlp = time_mlp', lin_cond_drop_prob = cond_drop_prob',
              cond_emb = cond_emb', cond_mlp = cond_mlp', blocks = blocks',
              final_proj = Linear (last hs) dim'\<rparr>))"

section \<open>Forward evaluation\<close>

definition squeeze_last :: "labels \<Rightarrow> labels" where
  "squeeze_last l =
     (if lshape l \<noteq> [] \<and> last (lshape l) = 1 then l\<lparr>lshape := butlast (lshape l)\<rparr> else l)"

definition pop :: "'a list \<Rightarrow> error + 'a \<times> 'a list" where
  "pop h = (if h = [] then Inl IndexError else Inr (last h, butlast h))"

text \<open>
  \<^verbatim>\<open>2 ** (len(self.downs) - 1)\<close> is the float \<open>0.5\<close> for an empty \<open>downs\<close>, so the factor
  is a rational number and \<^verbatim>\<open>%\<close> is Python's remainder for a positive divisor.
\<close>

definition downsample_factor :: "Unet \<Rightarrow> rat" where
  "downsample_factor net = 2 powi (int (length (downs net)) - 1)"

definition py_mod :: "rat \<Rightarrow> rat \<Rightarrow> rat" where
  "py_mod a b = a - b * of_int \<lfloor>a / b\<rfloor>"

definition divisible_by_factor :: "Unet \<Rightarrow> nat list \<Rightarrow> bool" where
  "divisible_by_factor net sh =
     list_all (\<lambda>d. py_mod (of_nat d) (downsample_factor net) = 0) (drop (length sh - 2) sh)"

subsection \<open>\<^verbatim>\<open>Unet.forward\<close>\<close>

text \<open>Lines 792 to 821: the conditioning vector \<open>c\<close>.\<close>

definition Unet_conditioning ::
  "('t, 'p, 'g) torch \<Rightarrow> Unet \<Rightarrow> nat \<Rightarrow> labels option \<Rightarrow> real option
     \<Rightarrow> ('t option, ('p, 'g) state) M" where
  "Unet_conditioning T net batch classes p_drop =
     (if is_conditional_model net then
        bindM (case classes of
                 None \<Rightarrow>
                   (case cond_dim net of
                      None \<Rightarrow> raiseM TypeError
                    | Some n \<Rightarrow>
                        if n = 0 then raiseM RuntimeError
                        else bindM (randintM T 0 (int n) batch) (\<lambda>cl. returnM (cl, Some 1)))
               | Some cl \<Rightarrow> returnM (cl, p_drop)) (\<lambda>(classes, p_drop).
        bindM (if length (lshape classes) > 1 then
                 (if length (lshape classes) = 2 \<and> last (lshape classes) = 1
                  then returnM (squeeze_last classes)
                  else raiseM (ShapeMismatch batch (lshape classes)))
               else returnM classes) (\<lambda>classes.
        let p_drop = default p_drop (cond_drop_prob net) in
        bindM (case class_emb net of
                 None \<Rightarrow> raiseM TypeError
               | Some m \<Rightarrow> embeddingM T (''class_emb'', []) m classes) (\<lambda>classes_emb.
        bindM (if p_drop > 0 then
                 bindM (randM T batch) (\<lambda>u.
                 let keep_mask = map (\<lambda>r. r < 1 - p_drop) u in
                 bindM (parameterM T (''null_classes_emb'', [])) (\<lambda>w.
                 bindM (liftE (expand T w [int batch, -1])) (\<lambda>null_classes_emb.
                 liftE (where_rows T keep_mask classes_emb null_classes_emb))))
               else returnM classes_emb) (\<lambda>classes_emb.
        bindM (case classes_mlp net of
                 None \<Rightarrow> raiseM TypeError
               | Some m \<Rightarrow> callM T (''classes_mlp'', []) m [Some classes_emb]) (\<lambda>c.
        returnM (Some c))))))
      else returnM None)"

text \<open>
  The encoder loop (lines 838 to 846) and the decoder loop (lines 852 to 860). The skip
  stack \<open>h\<close> is a Python list: \<^verbatim>\<open>append\<close> adds at the end and \<^verbatim>\<open>pop\<close> removes the
  last element.
\<close>

fun encoder ::
  "('t, 'p, 'g) torch \<Rightarrow> stage list \<Rightarrow> nat \<Rightarrow> 't \<Rightarrow> 't \<Rightarrow> 't option \<Rightarrow> 't list
     \<Rightarrow> ('t \<times> 't list, ('p, 'g) state) M" where
  "encoder T [] i x time c h = returnM (x, h)"
| "encoder T ((block1, block2, attn, down) # rest) i x time c h =
     bindM (callM T (''downs'', [i, 0]) block1 [Some x, Some time, c]) (\<lambda>x.
     let h = h @ [x] in
     bindM (callM T (''downs'', [i, 1]) block2 [Some x, Some time, c]) (\<lambda>x.
     bindM (callM T (''downs'', [i, 2]) attn [Some x]) (\<lambda>y.
     bindM (liftE (add T y x)) (\<lambda>x.
     let h = h @ [x] in
     bindM (callM T (''downs'', [i, 3]) down [Some x]) (\<lambda>x.
     encoder T rest (Suc i) x time c h)))))"

fun decoder ::
  "('t, 'p, 'g) torch \<Rightarrow> stage list \<Rightarrow> nat \<Rightarrow> 't \<Rightarrow> 't \<Rightarrow> 't option \<Rightarrow> 't list
     \<Rightarrow> ('t \<times> 't list, ('p, 'g) state) M" where
  "decoder T [] i x time c h = returnM (x, h)"
| "decoder T ((block1, block2, attn, up) # rest) i x time c h =
     bindM (liftE (pop h)) (\<lambda>(s1, h).
     bindM (liftE (cat T [x, s1] 1)) (\<lambda>x.
     bindM (callM T (''ups'', [i, 0]) block1 [Some x, Some time, c]) (\<lambda>x.
     bindM (liftE (pop h)) (\<lambda>(s2, h).
     bindM (liftE (cat T [x, s2] 1)) (\<lambda>x.
     bindM (callM T (''ups'', [i, 1]) block2 [Some x, Some time, c]) (\<lambda>x.
     bindM (callM T (''ups'', [i, 2]) attn [Some x]) (\<lambda>y.
     bindM (liftE (add T y x)) (\<lambda>x.
     bindM (callM T (''ups'', [i, 3]) up [Some x]) (\<lambda>x.
     decoder T rest (Suc i) x time c h)))))))))"

text \<open>
  Lines 823 to 864: the assertion on the spatial size and the network proper. The result
  is the output together with the skip stack as it is when \<^verbatim>\<open>forward\<close> returns.
\<close>

definition Unet_main ::
  "('t, 'p, 'g) torch \<Rightarrow> Unet \<Rightarrow> nat \<Rightarrow> 't \<Rightarrow> 't \<Rightarrow> 't option
     \<Rightarrow> ('t \<times> 't list, ('p, 'g) state) M" where
  "Unet_main T net batch x time c =
     (let sh = shape_of T x in
      if \<not> divisible_by_factor net sh
      then raiseM (DimensionMismatch (drop (length sh - 2) sh) (length (downs net)))
      else
        bindM (callM T (''init_conv'', []) (init_conv net) [Some x]) (\<lambda>x.
        let r = x in
        bindM (if shape_of T time = [1] then liftE (expand T time [int batch])
               else returnM time) (\<lambda>time.
        bindM (callM T (''time_mlp'', []) (time_mlp net) [Some time]) (\<lambda>time.
        bindM (encoder T (downs net) 0 x time c []) (\<lambda>(x, h).
        bindM (callM T (''mid_block1'', []) (mid_block1 net) [Some x, Some time, c]) (\<lambda>x.
        bindM (callM T (''mid_attn'', []) (mid_attn net) [Some x]) (\<lambda>y.
        bindM (liftE (add T y x)) (\<lambda>x.
        bindM (callM T (''mid_block2'', []) (mid_block2 net) [Some x, Some time, c]) (\<lambda>x.
        bindM (decoder T (ups net) 0 x time c h) (\<lambda>(x, h).
        bindM (liftE (cat T [x, r] 1)) (\<lambda>x.
        bindM (callM T (''final_res_block'', []) (final_res_block net)
                 [Some x, Some time, c]) (\<lambda>x.
        bindM (callM T (''final_conv'', []) (final_conv net) [Some x]) (\<lambda>x.
        returnM (x, h))))))))))))))"

definition Unet_forward_aux ::
  "('t, 'p, 'g) torch \<Rightarrow> Unet \<Rightarrow> 't \<Rightarrow> 't \<Rightarrow> labels option \<Rightarrow> real option
     \<Rightarrow> ('t \<times> 't list, ('p, 'g) state) M" where
  "Unet_forward_aux T net x time classes p_drop =
     (case shape_of T x of
        [] \<Rightarrow> raiseM IndexError
      | batch # _ \<Rightarrow>
          bindM (Unet_conditioning T net batch classes p_drop) (\<lambda>c.
          Unet_main T net batch x time c))"

definition Unet_forward ::
  "('t, 'p, 'g) torch \<Rightarrow> Unet \<Rightarrow> 't \<Rightarrow> 't \<Rightarrow> labels option \<Rightarrow> real option
     \<Rightarrow> ('t, ('p, 'g) state) M" where
  "Unet_forward T net x time classes p_drop =
     bindM (Unet_forward_aux T net x time classes p_drop) (\<lambda>(y, h). returnM y)"

subsection \<open>\<^verbatim>\<open>LinearNetwork.forward\<close>\<close>

definition LinearNetwork_conditioning ::
  "('t, 'p, 'g) torch \<Rightarrow> LinearNetwork \<Rightarrow> nat \<Rightarrow> labels option \<Rightarrow> real option
     \<Rightarrow> ('t option, ('p, 'g) state) M" where
  "LinearNetwork_conditioning T net batch cond p_drop =
     (if is_conditional_model net then
        bindM (case cond of
                 None \<Rightarrow>
                   (case cond_dim net of
                      None \<Rightarrow> raiseM TypeError
                    | Some n \<Rightarrow>
                        if n = 0 then raiseM RuntimeError
                        else bindM (randintM T 0 (int n) batch) (\<lambda>cl. returnM (cl, Some 1)))
               | Some cl \<Rightarrow> returnM (cl, p_drop)) (\<lambda>(cond, p_drop).
        bindM (if length (lshape cond) > 1 then
                 (if length (lshape cond) = 2 \<and> last (lshape cond) = 1
                  then returnM (squeeze_last cond)
                  else raiseM (ShapeMismatch batch (lshape cond)))
               else returnM cond) (\<lambda>cond.
        let p_drop = default p_drop (lin_cond_drop_prob net) in
        bindM (case cond_emb net of
                 None \<Rightarrow> raiseM TypeError
               | Some m \<Rightarrow> embeddingM T (''cond_emb'', []) m cond) (\<lambda>cond_emb'.
        bindM (if p_drop > 0 then
                 bindM (randM T batch) (\<lambda>u.
                 let keep_mask = map (\<lambda>r. r < 1 - p_drop) u in
                 bindM (parameterM T (''null_classes_emb'', [])) (\<lambda>w.
                 bindM (liftE (expand T w [int batch, -1])) (\<lambda>null_classes_emb.
                 liftE (where_rows T keep_mask cond_emb' null_classes_emb))))
               else returnM cond_emb') (\<lambda>cond_emb'.
        bindM (case cond_mlp net of
                 None \<Rightarrow> raiseM TypeError
               | Some m \<Rightarrow> callM T (''cond_mlp'', []) m [Some cond_emb']) (\<lambda>c.
        returnM (Some c))))))
      else returnM None)"

fun run_blocks ::
  "('t, 'p, 'g) torch \<Rightarrow> module list \<Rightarrow> nat \<Rightarrow> 't \<Rightarrow> 't \<Rightarrow> 't option
     \<Rightarrow> ('t, ('p, 'g) state) M" where
  "run_blocks T [] i x time c = returnM x"
| "run_blocks T (block # rest) i x time c =
     bindM (callM T (''blocks'', [i]) block [Some x, Some time, c]) (\<lambda>x.
     run_blocks T rest (Suc i) x time c)"

text \<open>Lines 287 to 289: the time embedding.\<close>

definition LinearNetwork_time ::
  "('t, 'p, 'g) torch \<Rightarrow> LinearNetwork \<Rightarrow> nat \<Rightarrow> 't \<Rightarrow> ('t, ('p, 'g) state) M" where
  "LinearNetwork_time T net batch time =
     bindM (if shape_of T time = [1] then liftE (expand T time [int batch])
            else returnM time) (\<lambda>time.
     bindM (liftE (unsqueeze_last T time)) (\<lambda>time.
     callM T (''time_mlp'', []) (lin_time_mlp net) [Some time]))"

definition LinearNetwork_forward ::
  "('t, 'p, 'g) torch \<Rightarrow> LinearNetwork \<Rightarrow> 't \<Rightarrow> 't \<Rightarrow> labels option \<Rightarrow> real option
     \<Rightarrow> ('t, ('p, 'g) state) M" where
  "LinearNetwork_forward T net x time cond p_drop =
     (case shape_of T x of
        [] \<Rightarrow> raiseM IndexError
      | batch # _ \<Rightarrow>
          bindM (LinearNetwork_time T net batch time) (\<lambda>time.
          bindM (LinearNetwork_conditioning T net batch cond p_drop) (\<lambda>c.
          let x_res = x in
          bindM (run_blocks T (blocks net) 0 x time c) (\<lambda>x.
          bindM (callM T (''final_proj'', []) (final_proj net) [Some x]) (\<lambda>x.
          liftE (add T x x_res))))))"

section \<open>The library on shapes\<close>

text \<open>
  The shape rules of the PyTorch and einops operations the networks use, with tensors
  replaced by their shapes. A rule fails where the operation raises. Convolution and
  up-sampling are modelled for batched four-dimensional inputs, and the operands of an
  \<^verbatim>\<open>einsum\<close> must agree exactly on shared axes.
\<close>

type_synonym shape = "nat list"

fun broadcast_rev :: "nat list \<Rightarrow> nat list \<Rightarrow> error + nat list" where
  "broadcast_rev [] ys = Inr ys"
| "broadcast_rev (x # xs) [] = Inr (x # xs)"
| "broadcast_rev (x # xs) (y # ys) =
     (if x = y \<or> x = 1 \<or> y = 1
      then bindE (broadcast_rev xs ys) (\<lambda>r. Inr ((if x = 1 then y else x) # r))
      else Inl RuntimeError)"

definition broadcast :: "shape \<Rightarrow> shape \<Rightarrow> error + shape" where
  "broadcast a b = bindE (broadcast_rev (rev a) (rev b)) (\<lambda>r. Inr (rev r))"

fun expand_rev :: "nat list \<Rightarrow> int list \<Rightarrow> error + nat list" where
  "expand_rev [] [] = Inr []"
| "expand_rev [] (z # zs) =
     (if z < 0 then Inl RuntimeError
      else bindE (expand_rev [] zs) (\<lambda>r. Inr (nat z # r)))"
| "expand_rev (x # xs) [] = Inl RuntimeError"
| "expand_rev (x # xs) (z # zs) =
     (if z = - 1 then bindE (expand_rev xs zs) (\<lambda>r. Inr (x # r))
      else if 0 \<le> z \<and> (int x = z \<or> x = 1) then bindE (expand_rev xs zs) (\<lambda>r. Inr (nat z # r))
      else Inl RuntimeError)"

definition expand_shape :: "shape \<Rightarrow> int list \<Rightarrow> error + shape" where
  "expand_shape sh sizes = bindE (expand_rev (rev sh) (rev sizes)) (\<lambda>r. Inr (rev r))"

definition unsqueeze_shape :: "shape \<Rightarrow> error + shape" where
  "unsqueeze_shape sh = (case sh of [] \<Rightarrow> Inl IndexError | b # rest \<Rightarrow> Inr (b # 1 # rest))"

definition cat_shape :: "shape list \<Rightarrow> nat \<Rightarrow> error + shape" where
  "cat_shape shs d =
     (case shs of
        [] \<Rightarrow> Inl RuntimeError
      | a # rest \<Rightarrow>
          if d < length a \<and> list_all (\<lambda>b. length b = length a \<and> b[d := 0] = a[d := 0]) rest
          then Inr (a[d := sum_list (map (\<lambda>b. b ! d) shs)])
          else Inl RuntimeError)"

definition cat_last :: "shape list \<Rightarrow> error + shape" where
  "cat_last shs = (case shs of [] \<Rightarrow> Inl RuntimeError
     | a # rest \<Rightarrow> if a = [] then Inl RuntimeError else cat_shape shs (length a - 1))"

definition chunk_sizes :: "nat \<Rightarrow> nat \<Rightarrow> nat list" where
  "chunk_sizes chunks n =
     (let split = (n + chunks - 1) div chunks in
      if split = 0 then replicate chunks 0
      else replicate (n div split) split @ (if n mod split = 0 then [] else [n mod split]))"

definition chunk_shapes :: "nat \<Rightarrow> nat \<Rightarrow> shape \<Rightarrow> error + shape list" where
  "chunk_shapes chunks d sh =
     (if d < length sh then Inr (map (\<lambda>k. sh[d := k]) (chunk_sizes chunks (sh ! d)))
      else Inl IndexError)"

definition linear_shape :: "nat \<Rightarrow> nat \<Rightarrow> shape \<Rightarrow> error + shape" where
  "linear_shape i out sh =
     (if sh \<noteq> [] \<and> last sh = i then Inr (butlast sh @ [out]) else Inl RuntimeError)"

definition layer_norm_shape :: "nat \<Rightarrow> shape \<Rightarrow> error + shape" where
  "layer_norm_shape d sh = (if sh \<noteq> [] \<and> last sh = d then Inr sh else Inl RuntimeError)"

definition conv2d_shape :: "nat \<Rightarrow> nat \<Rightarrow> nat \<Rightarrow> nat \<Rightarrow> shape \<Rightarrow> error + shape" where
  "conv2d_shape i out k pad sh =
     (case sh of
        [b, c, h, w] \<Rightarrow>
          if c = i \<and> k \<le> h + 2 * pad \<and> k \<le> w + 2 * pad
          then Inr [b, out, h + 2 * pad + 1 - k, w + 2 * pad + 1 - k]
          else Inl RuntimeError
      | _ \<Rightarrow> Inl RuntimeError)"

definition group_norm_shape :: "nat \<Rightarrow> nat \<Rightarrow> shape \<Rightarrow> error + shape" where
  "group_norm_shape g c sh =
     (if 2 \<le> length sh \<and> sh ! 1 = c \<and> g \<noteq> 0 \<and> c mod g = 0 then Inr sh else Inl RuntimeError)"

definition upsample_shape :: "shape \<Rightarrow> error + shape" where
  "upsample_shape sh =
     (case sh of [b, c, h, w] \<Rightarrow> Inr [b, c, 2 * h, 2 * w] | _ \<Rightarrow> Inl RuntimeError)"

definition rearrange_down_shape :: "shape \<Rightarrow> error + shape" where
  "rearrange_down_shape sh =
     (case sh of
        [b, c, h, w] \<Rightarrow>
          if h mod 2 = 0 \<and> w mod 2 = 0 then Inr [b, c * 2 * 2, h div 2, w div 2]
          else Inl RuntimeError
      | _ \<Rightarrow> Inl RuntimeError)"

text \<open>\<^verbatim>\<open>"b (h c) x y -> b h c (x y)"\<close> and \<^verbatim>\<open>"b (h c) x y -> b h (x y) c"\<close>.\<close>

definition split_heads_cn :: "nat \<Rightarrow> shape \<Rightarrow> error + shape" where
  "split_heads_cn heads sh =
     (case sh of
        [b, hc, x, y] \<Rightarrow>
          if heads \<noteq> 0 \<and> hc mod heads = 0 then Inr [b, heads, hc div heads, x * y]
          else Inl RuntimeError
      | _ \<Rightarrow> Inl RuntimeError)"

definition split_heads_nc :: "nat \<Rightarrow> shape \<Rightarrow> error + shape" where
  "split_heads_nc heads sh =
     (case sh of
        [b, hc, x, y] \<Rightarrow>
          if heads \<noteq> 0 \<and> hc mod heads = 0 then Inr [b, heads, x * y, hc div heads]
          else Inl RuntimeError
      | _ \<Rightarrow> Inl RuntimeError)"

text \<open>\<^verbatim>\<open>"b h c (x y) -> b (h c) x y"\<close> (with \<open>h\<close>, \<open>x\<close>, \<open>y\<close> given) and
  \<^verbatim>\<open>"b h (x y) d -> b (h d) x y"\<close> (with \<open>x\<close>, \<open>y\<close> given).\<close>

definition merge_heads_cn :: "nat \<Rightarrow> nat \<Rightarrow> nat \<Rightarrow> shape \<Rightarrow> error + shape" where
  "merge_heads_cn heads x y sh =
     (case sh of
        [b, h, c, n] \<Rightarrow> if h = heads \<and> n = x * y then Inr [b, h * c, x, y] else Inl RuntimeError
      | _ \<Rightarrow> Inl RuntimeError)"

definition merge_heads_nd :: "nat \<Rightarrow> nat \<Rightarrow> shape \<Rightarrow> error + shape" where
  "merge_heads_nd x y sh =
     (case sh of
        [b, h, n, d] \<Rightarrow> if n = x * y then Inr [b, h * d, x, y] else Inl RuntimeError
      | _ \<Rightarrow> Inl RuntimeError)"

text \<open>
  \<^verbatim>\<open>"b h i d, b h j d -> b h i j"\<close>, \<^verbatim>\<open>"b h i j, b h j d -> b h i d"\<close>,
  \<^verbatim>\<open>"b h d n, b h e n -> b h d e"\<close> and \<^verbatim>\<open>"b h d e, b h d n -> b h e n"\<close>.
\<close>

definition einsum_sim :: "shape \<Rightarrow> shape \<Rightarrow> error + shape" where
  "einsum_sim q k =
     (case (q, k) of
        ([b, h, i, d], [b', h', j, d']) \<Rightarrow>
          if b = b' \<and> h = h' \<and> d = d' then Inr [b, h, i, j] else Inl RuntimeError
      | _ \<Rightarrow> Inl RuntimeError)"

definition einsum_out :: "shape \<Rightarrow> shape \<Rightarrow> error + shape" where
  "einsum_out a v =
     (case (a, v) of
        ([b, h, i, j], [b', h', j', d]) \<Rightarrow>
          if b = b' \<and> h = h' \<and> j = j' then Inr [b, h, i, d] else Inl RuntimeError
      | _ \<Rightarrow> Inl RuntimeError)"

definition einsum_context :: "shape \<Rightarrow> shape \<Rightarrow> error + shape" where
  "einsum_context k v =
     (case (k, v) of
        ([b, h, d, n], [b', h', e, n']) \<Rightarrow>
          if b = b' \<and> h = h' \<and> n = n' then Inr [b, h, d, e] else Inl RuntimeError
      | _ \<Rightarrow> Inl RuntimeError)"

definition einsum_lin_out :: "shape \<Rightarrow> shape \<Rightarrow> error + shape" where
  "einsum_lin_out ctx q =
     (case (ctx, q) of
        ([b, h, d, e], [b', h', d', n]) \<Rightarrow>
          if b = b' \<and> h = h' \<and> d = d' then Inr [b, h, e, n] else Inl RuntimeError
      | _ \<Rightarrow> Inl RuntimeError)"

definition in_range :: "nat \<Rightarrow> labels \<Rightarrow> bool" where
  "in_range k l = list_all (\<lambda>v. 0 \<le> v \<and> v < int k) (lvalues l)"

definition embedding_shape :: "module \<Rightarrow> labels \<Rightarrow> error + shape" where
  "embedding_shape m l =
     (case m of
        Embedding k d \<Rightarrow> if in_range k l then Inr (lshape l @ [d]) else Inl IndexError
      | _ \<Rightarrow> Inl TypeError)"

text \<open>\<^verbatim>\<open>x * (scale + 1) + shift\<close>.\<close>

definition modulate :: "shape \<Rightarrow> shape \<Rightarrow> shape \<Rightarrow> error + shape" where
  "modulate x scale shift = bindE (broadcast x scale) (\<lambda>y. broadcast y shift)"

text \<open>
  \<^verbatim>\<open>F.scaled_dot_product_attention\<close> and the two \<^verbatim>\<open>einsum\<close> calls of
  \<^verbatim>\<open>Attend.forward\<close> produce the same shape.
\<close>

definition attend_shape :: "shape \<Rightarrow> shape \<Rightarrow> shape \<Rightarrow> error + shape" where
  "attend_shape q k v = bindE (einsum_sim q k) (\<lambda>sim. einsum_out sim v)"

text \<open>
  The \<^verbatim>\<open>forward\<close> methods of the modules, on shapes. The arguments are the positional
  arguments of the call; a block receives its input followed by the chunks of
  \<^verbatim>\<open>scale_shift\<close> (none when \<^verbatim>\<open>scale_shift\<close> is \<^verbatim>\<open>None\<close>).
\<close>

fun forward_shape :: "module \<Rightarrow> shape option list \<Rightarrow> error + shape"
  and sequential_shape :: "module list \<Rightarrow> shape \<Rightarrow> error + shape" where
  "forward_shape Identity args = (case args of [Some x] \<Rightarrow> Inr x | _ \<Rightarrow> Inl TypeError)"
| "forward_shape SiLU args = (case args of [Some x] \<Rightarrow> Inr x | _ \<Rightarrow> Inl TypeError)"
| "forward_shape GELU args = (case args of [Some x] \<Rightarrow> Inr x | _ \<Rightarrow> Inl TypeError)"
| "forward_shape (Dropout p) args = (case args of [Some x] \<Rightarrow> Inr x | _ \<Rightarrow> Inl TypeError)"
| "forward_shape (Linear i out) args =
     (case args of [Some x] \<Rightarrow> linear_shape i out x | _ \<Rightarrow> Inl TypeError)"
| "forward_shape (LayerNorm d) args =
     (case args of [Some x] \<Rightarrow> layer_norm_shape d x | _ \<Rightarrow> Inl TypeError)"
| "forward_shape (Conv2d i out k pad) args =
     (case args of [Some x] \<Rightarrow> conv2d_shape i out k pad x | _ \<Rightarrow> Inl TypeError)"
| "forward_shape (GroupNorm g c) args =
     (case args of [Some x] \<Rightarrow> group_norm_shape g c x | _ \<Rightarrow> Inl TypeError)"
| "forward_shape (Embedding k d) args = Inl TypeError"
| "forward_shape Upsample args =
     (case args of [Some x] \<Rightarrow> upsample_shape x | _ \<Rightarrow> Inl TypeError)"
| "forward_shape Rearrange args =
     (case args of [Some x] \<Rightarrow> rearrange_down_shape x | _ \<Rightarrow> Inl TypeError)"
| "forward_shape (Sequential ms) args =
     (case args of [Some x] \<Rightarrow> sequential_shape ms x | _ \<Rightarrow> Inl TypeError)"
| "forward_shape (SinusoidalPosEmb d) args =
     (case args of
        [Some x] \<Rightarrow>
          let half_dim = d div 2 in
          if half_dim = 1 then Inl ZeroDivisionError
          else bindE (unsqueeze_shape x) (\<lambda>x1.
               bindE (broadcast x1 [1, half_dim]) (\<lambda>emb. cat_last [emb, emb]))
      | _ \<Rightarrow> Inl TypeError)"
| "forward_shape (RandomOrLearnedSinusoidalPosEmb half_dim is_random) args =
     (case args of
        [Some x] \<Rightarrow>
          bindE (broadcast x [1, half_dim]) (\<lambda>freqs.
          bindE (cat_last [freqs, freqs]) (\<lambda>fouriered. cat_last [x, fouriered]))
      | _ \<Rightarrow> Inl TypeError)"
| "forward_shape (LinearBlock proj norm' act dropout) args =
     (case args of
        Some x # scale_shift \<Rightarrow>
          bindE (forward_shape proj [Some x]) (\<lambda>x.
          bindE (forward_shape norm' [Some x]) (\<lambda>x.
          bindE (case scale_shift of
                   [] \<Rightarrow> Inr x
                 | [Some scale, Some shift] \<Rightarrow> modulate x scale shift
                 | _ \<Rightarrow> Inl ValueError) (\<lambda>x.
          bindE (forward_shape act [Some x]) (\<lambda>x. forward_shape dropout [Some x]))))
      | _ \<Rightarrow> Inl TypeError)"
| "forward_shape (LinearResnetBlock mlp block1 block2 res_proj) args =
     (case args of
        [Some x, time_emb, cond_emb'] \<Rightarrow>
          bindE (if exists time_emb \<or> exists cond_emb' then
                   bindE (cat_last (List.map_filter (\<lambda>v. v) [time_emb, cond_emb'])) (\<lambda>e.
                   bindE (forward_shape mlp [Some e]) (\<lambda>emb.
                   chunk_shapes 2 (length emb - 1) emb))
                 else Inr []) (\<lambda>scale_shift.
          bindE (forward_shape block1 (Some x # map Some scale_shift)) (\<lambda>h.
          bindE (forward_shape block2 [Some h]) (\<lambda>h.
          bindE (forward_shape res_proj [Some x]) (\<lambda>r. broadcast h r))))
      | _ \<Rightarrow> Inl TypeError)"
| "forward_shape (Block proj norm' act) args =
     (case args of
        Some x # scale_shift \<Rightarrow>
          bindE (forward_shape proj [Some x]) (\<lambda>x.
          bindE (forward_shape norm' [Some x]) (\<lambda>x.
          bindE (case scale_shift of
                   [] \<Rightarrow> Inr x
                 | [Some scale, Some shift] \<Rightarrow> modulate x scale shift
                 | _ \<Rightarrow> Inl ValueError) (\<lambda>x.
          forward_shape act [Some x])))
      | _ \<Rightarrow> Inl TypeError)"
| "forward_shape (ResnetBlock mlp block1 block2 res_conv) args =
     (case args of
        [Some x, time_emb, class_emb'] \<Rightarrow>
          bindE (case mlp of
                   Some m \<Rightarrow>
                     if exists time_emb \<or> exists class_emb' then
                       bindE (cat_last (List.map_filter (\<lambda>v. v) [time_emb, class_emb'])) (\<lambda>e.
                       bindE (forward_shape m [Some e]) (\<lambda>emb.
                       chunk_shapes 2 1 (emb @ [1, 1])))
                     else Inr []
                 | None \<Rightarrow> Inr []) (\<lambda>scale_shift.
          bindE (forward_shape block1 (Some x # map Some scale_shift)) (\<lambda>h.
          bindE (forward_shape block2 [Some h]) (\<lambda>h.
          bindE (forward_shape res_conv [Some x]) (\<lambda>r. broadcast h r))))
      | _ \<Rightarrow> Inl TypeError)"
| "forward_shape (RMSNorm d) args =
     (case args of
        [Some x] \<Rightarrow> if length x < 2 then Inl IndexError else broadcast x [1, d, 1, 1]
      | _ \<Rightarrow> Inl TypeError)"
| "forward_shape (Attend dropout flash cpu_config cuda_config) args =
     (case args of [Some q, Some k, Some v] \<Rightarrow> attend_shape q k v | _ \<Rightarrow> Inl TypeError)"
| "forward_shape (LinearAttention heads dim_head norm' to_qkv to_out) args =
     (case args of
        [Some x] \<Rightarrow>
          (case x of
             [b, c, h, w] \<Rightarrow>
               bindE (forward_shape norm' [Some x]) (\<lambda>x.
               bindE (forward_shape to_qkv [Some x]) (\<lambda>y.
               bindE (chunk_shapes 3 1 y) (\<lambda>qkv.
               bindE (mapE (split_heads_cn heads) qkv) (\<lambda>qkv'.
               case qkv' of
                 [q, k, v] \<Rightarrow>
                   bindE (einsum_context k v) (\<lambda>context.
                   bindE (einsum_lin_out context q) (\<lambda>out.
                   bindE (merge_heads_cn heads h w out) (\<lambda>out.
                   forward_shape to_out [Some out])))
               | _ \<Rightarrow> Inl ValueError))))
           | _ \<Rightarrow> Inl ValueError)
      | _ \<Rightarrow> Inl TypeError)"
| "forward_shape (Attention heads norm' attend to_qkv to_out) args =
     (case args of
        [Some x] \<Rightarrow>
          (case x of
             [b, c, h, w] \<Rightarrow>
               bindE (forward_shape norm' [Some x]) (\<lambda>x.
               bindE (forward_shape to_qkv [Some x]) (\<lambda>y.
               bindE (chunk_shapes 3 1 y) (\<lambda>qkv.
               bindE (mapE (split_heads_nc heads) qkv) (\<lambda>qkv'.
               case qkv' of
                 [q, k, v] \<Rightarrow>
                   bindE (forward_shape attend [Some q, Some k, Some v]) (\<lambda>out.
                   bindE (merge_heads_nd h w out) (\<lambda>out.
                   forward_shape to_out [Some out]))
               | _ \<Rightarrow> Inl ValueError))))
           | _ \<Rightarrow> Inl ValueError)
      | _ \<Rightarrow> Inl TypeError)"
| "sequential_shape [] x = Inr x"
| "sequential_shape (m # ms) x = bindE (forward_shape m [Some x]) (\<lambda>y. sequential_shape ms y)"

text \<open>
  The library instance: a tensor is its shape, the parameter store gives the shape of each
  named parameter, and the generator counts the draws made from it.
\<close>

definition torch_shape :: "(shape, name \<Rightarrow> shape, nat) torch" where
  "torch_shape =
     \<lparr>shape_of = (\<lambda>x. x),
      apply_module = (\<lambda>p tr n m args g. (forward_shape m args, g)),
      embedding = (\<lambda>p n m l. embedding_shape m l),
      parameter = (\<lambda>p n. p n),
      rand = (\<lambda>n g. (replicate n 0, Suc g)),
      randint = (\<lambda>lo hi n g. (replicate n lo, Suc g)),
      where_rows = (\<lambda>mask a b. bindE (broadcast [length mask, 1] a) (\<lambda>m. broadcast m b)),
      expand = expand_shape,
      unsqueeze_last = unsqueeze_shape,
      cat = cat_shape,
      add = broadcast,
      sub = broadcast,
      mul = broadcast,
      divide_t = broadcast,
      scale_by = (\<lambda>x c. x),
      std_keepdim = (\<lambda>x dims.
        Inr (map (\<lambda>i. if i \<in> set dims then 1 else x ! i) [0 ..< length x]))\<rparr>"

section \<open>Predicates of the verification\<close>

definition Unet_forward_with_cond_scale where
  "Unet_forward_with_cond_scale T net x time classes cond_scale rescaled_phi =
     forward_with_cond_scale T (\<lambda>(x, time, classes) p. Unet_forward T net x time classes p)
       (x, time, classes) cond_scale rescaled_phi"

definition LinearNetwork_forward_with_cond_scale where
  "LinearNetwork_forward_with_cond_scale T net x time cond cond_scale rescaled_phi =
     forward_with_cond_scale T (\<lambda>(x, time, cond) p. LinearNetwork_forward T net x time cond p)
       (x, time, cond) cond_scale rescaled_phi"

definition guidance_combine ::
  "('t, 'p, 'g) torch \<Rightarrow> 't \<Rightarrow> 't \<Rightarrow> real \<Rightarrow> real \<Rightarrow> error + 't" where
  "guidance_combine T logitsCond logitsUncond guidanceScale rescaledPhi =
     bindE (sub T logitsCond logitsUncond) (\<lambda>diff.
     bindE (add T logitsUncond (scale_by T diff guidanceScale)) (\<lambda>scaled.
     if rescaledPhi = 0 then Inr scaled
     else
       let non_batch = [1 ..< length (shape_of T scaled)] in
       bindE (std_keepdim T logitsCond non_batch) (\<lambda>stdCond.
       bindE (std_keepdim T scaled non_batch) (\<lambda>stdScaled.
       bindE (divide_t T stdCond stdScaled) (\<lambda>ratio.
       bindE (mul T scaled ratio) (\<lambda>rescaled.
       add T (scale_by T rescaled rescaledPhi) (scale_by T scaled (1 - rescaledPhi))))))))"

definition frame :: "('a, ('p, 'g) state) M \<Rightarrow> bool" where
  "frame m = (\<forall>s. params (snd (m s)) = params s \<and> training (snd (m s)) = training s)"

definition cond_ok :: "nat option \<Rightarrow> shape option \<Rightarrow> nat \<Rightarrow> bool" where
  "cond_ok cdim c b = (case cdim of None \<Rightarrow> c = None | Some k \<Rightarrow> c = Some [b, k])"

fun skips :: "nat \<Rightarrow> nat list \<Rightarrow> nat \<Rightarrow> nat \<Rightarrow> shape list" where
  "skips b (d # d' # rest) h w = [b, d, h, w] # [b, d, h, w] # skips b (d' # rest) (h div 2) (w div 2)"
| "skips b [d] h w = []"
| "skips b [] h w = []"

definition yields :: "('a, 's) M \<Rightarrow> 'a \<Rightarrow> bool" where
  "yields m v = (\<forall>s. fst (m s) = Inr v)"

definition attn_list_ok :: "nat \<Rightarrow> nat scalar_or_tuple \<Rightarrow> bool" where
  "attn_list_ok n t =
     (case t of Scalar v \<Rightarrow> 0 < v | Tuple vs \<Rightarrow> length vs = n \<and> list_all (\<lambda>v. 0 < v) vs)"

definition unet_args_ok :: "env \<Rightarrow> unet_args \<Rightarrow> bool" where
  "unet_args_ok E a =
     ((a_init_dim a = None \<or> a_init_dim a = Some (a_dim a)) \<and>
      \<not> a_learned_sinusoidal_cond a \<and> \<not> a_random_fourier_features a \<and>
      a_dim a mod 2 = 0 \<and> 4 \<le> a_dim a \<and>
      a_dim_mults a \<noteq> [] \<and>
      0 < a_resnet_block_groups a \<and>
      (case a_full_attn a of Scalar f \<Rightarrow> True | Tuple fs \<Rightarrow> length fs = length (a_dim_mults a)) \<and>
      attn_list_ok (length (a_dim_mults a)) (a_attn_heads a) \<and>
      attn_list_ok (length (a_dim_mults a)) (a_attn_dim_head a) \<and>
      (a_flash_attn a \<longrightarrow> \<not> version_less (torch_version E) (2, 0, 0)))"

definition labels_ok :: "nat \<Rightarrow> nat \<Rightarrow> labels option \<Rightarrow> bool" where
  "labels_ok k b classes =
     (case classes of
        None \<Rightarrow> True
      | Some l \<Rightarrow> (lshape l = [b] \<or> lshape l = [b, 1]) \<and> in_range k l)"

definition unet_input_ok ::
  "unet_args \<Rightarrow> shape \<Rightarrow> shape \<Rightarrow> labels option \<Rightarrow> (name \<Rightarrow> shape, nat) state \<Rightarrow> bool" where
  "unet_input_ok a x time classes s =
     (case x of
        [b, c, h, w] \<Rightarrow>
          c = a_channels a \<and> 0 < b \<and> 0 < h \<and> 0 < w \<and>
          2 ^ (length (a_dim_mults a) - 1) dvd h \<and> 2 ^ (length (a_dim_mults a) - 1) dvd w \<and>
          (time = [b] \<or> time = [1]) \<and>
          (case a_num_classes a of
             None \<Rightarrow> True
           | Some k \<Rightarrow> 0 < k \<and> labels_ok k b classes \<and>
                       params s (''null_classes_emb'', []) = [a_dim a])
      | _ \<Rightarrow> False)"

definition linear_input_ok ::
  "linear_args \<Rightarrow> shape \<Rightarrow> shape \<Rightarrow> labels option \<Rightarrow> (name \<Rightarrow> shape, nat) state \<Rightarrow> bool" where
  "linear_input_ok a x time cond s =
     (case x of
        [b, d] \<Rightarrow>
          d = l_dim a \<and> 0 < b \<and> (time = [b] \<or> time = [1]) \<and>
          (case l_cond_dim a of
             None \<Rightarrow> True
           | Some k \<Rightarrow> 0 < k \<and> labels_ok k b cond \<and>
                       params s (''null_classes_emb'', []) = [l_dim a])
      | _ \<Rightarrow> False)"

definition post :: "('a, 's) M \<Rightarrow> ('a \<Rightarrow> bool) \<Rightarrow> bool" where
  "post m P = (\<forall>s r s'. m s = (Inr r, s') \<longrightarrow> P r)"

subsection \<open>Concrete configurations\<close>

definition env_torch2 :: env where
  "env_torch2 = \<lparr>torch_version = (2, 1, 0), cuda_is_available = False,
                  device_major = 0, device_minor = 0\<rparr>"

definition env_torch1 :: env where
  "env_torch1 = \<lparr>torch_version = (1, 13, 1), cuda_is_available = True,
                  device_major = 8, device_minor = 0\<rparr>"

definition unet_small :: unet_args where
  "unet_small = \<lparr>a_dim = 4, a_dim_mults = [1, 2], a_channels = 3, a_init_dim = None,
     a_out_dim = None, a_num_classes = Some 10, a_cond_drop_prob = 1 / 2,
     a_resnet_block_groups = 8, a_learned_sinusoidal_cond = False,
     a_learned_sinusoidal_dim = 16, a_random_fourier_features = False,
     a_full_attn = Tuple [False, True], a_attn_heads = Scalar 4,
     a_attn_dim_head = Scalar 32, a_flash_attn = False\<rparr>"

definition state_small :: "(name \<Rightarrow> shape, nat) state" where
  "state_small = \<lparr>params = (\<lambda>n. [4]), training = False, rng = 0, executed = []\<rparr>"

definition labels_small :: labels where
  "labels_small = \<lparr>lshape = [2], lvalues = [3, 7]\<rparr>"

definition linear_small :: linear_args where
  "linear_small = \<lparr>l_dim = 2, l_hidden_dims = [128, 128], l_cond_dim = Some 10,
     l_cond_drop_prob = 1 / 2, l_sin_dim = 16, l_time_dim = 16, l_random_time_emb = False,
     l_dropout_p = 0\<rparr>"

definition state_linear :: "(name \<Rightarrow> shape, nat) state" where
  "state_linear = \<lparr>params = (\<lambda>n. [2]), training = False, rng = 0, executed = []\<rparr>"

section \<open>Auxiliary lemmas\<close>

lemma bindM_returnM: "bindM m returnM = m"
  by (auto simp: bindM_def returnM_def fun_eq_iff split: prod.splits sum.splits)

lemma bindM_Inr_iff:
  "bindM m f s = (Inr b, s') \<longleftrightarrow> (\<exists>a s1. m s = (Inr a, s1) \<and> f a s1 = (Inr b, s'))"
  by (auto simp: bindM_def split: prod.splits sum.splits)

lemma bindM_Inl_iff:
  "bindM m f s = (Inl e, s') \<longleftrightarrow> (m s = (Inl e, s') \<or> (\<exists>a s1. m s = (Inr a, s1) \<and> f a s1 = (Inl e, s')))"
  by (auto simp: bindM_def split: prod.splits sum.splits)

lemma bindM_apply_Inr: "m s = (Inr a, s1) \<Longrightarrow> bindM m f s = f a s1"
  by (simp add: bindM_def)

lemma bindM_apply_Inl: "m s = (Inl e, s1) \<Longrightarrow> bindM m f s = (Inl e, s1)"
  by (simp add: bindM_def)

lemma liftE_bindE: "liftE (bindE r f) = bindM (liftE r) (\<lambda>x. liftE (f x))"
  by (auto simp: liftE_def bindE_def bindM_def fun_eq_iff split: sum.splits)

lemma Unet_conditioning_squeeze:
  "Unet_conditioning T net batch (Some \<lparr>lshape = [b, 1], lvalues = v\<rparr>) p =
   Unet_conditioning T net batch (Some \<lparr>lshape = [b], lvalues = v\<rparr>) p"
  by (simp add: Unet_conditioning_def squeeze_last_def bindM_def returnM_def)

lemma Unet_conditioning_bad_shape:
  assumes "is_conditional_model net" "1 < length sh" "\<not> (length sh = 2 \<and> last sh = 1)"
  shows "Unet_conditioning T net batch (Some \<lparr>lshape = sh, lvalues = v\<rparr>) p s = (Inl (ShapeMismatch batch sh), s)"
proof -
  have *: "(length sh = 2 \<and> last sh = 1) = False" using assms by simp
  show ?thesis using assms(1,2) unfolding Unet_conditioning_def
    by (simp add: bindM_def returnM_def raiseM_def * del: One_nat_def)
qed

lemma LinearNetwork_conditioning_squeeze:
  "LinearNetwork_conditioning T net batch (Some \<lparr>lshape = [b, 1], lvalues = v\<rparr>) p =
   LinearNetwork_conditioning T net batch (Some \<lparr>lshape = [b], lvalues = v\<rparr>) p"
  by (simp add: LinearNetwork_conditioning_def squeeze_last_def bindM_def returnM_def)

lemma LinearNetwork_conditioning_bad_shape:
  assumes "is_conditional_model net" "1 < length sh" "\<not> (length sh = 2 \<and> last sh = 1)"
  shows "LinearNetwork_conditioning T net batch (Some \<lparr>lshape = sh, lvalues = v\<rparr>) p s = (Inl (ShapeMismatch batch sh), s)"
proof -
  have *: "(length sh = 2 \<and> last sh = 1) = False" using assms by simp
  show ?thesis using assms(1,2) unfolding LinearNetwork_conditioning_def
    by (simp add: bindM_def returnM_def raiseM_def * del: One_nat_def)
qed

lemma frame_returnM: "frame (returnM x)" by (simp add: frame_def returnM_def)

lemma frame_raiseM: "frame (raiseM e)" by (simp add: frame_def raiseM_def)

lemma frame_liftE: "frame (liftE r)" by (simp add: frame_def liftE_def)

lemma frame_bindM:
  assumes "frame m" and "\<And>x. frame (f x)"
  shows "frame (bindM m f)"
proof -
  have "params (snd (bindM m f s)) = params s \<and> training (snd (bindM m f s)) = training s" for s
  proof -
    obtain r s1 where ms: "m s = (r, s1)" by (cases "m s")
    have "params (snd (m s)) = params s \<and> training (snd (m s)) = training s"
      using assms(1) unfolding frame_def by blast
    then have p1: "params s1 = params s \<and> training s1 = training s" using ms by simp
    show ?thesis
    proof (cases r)
      case (Inl e)
      then show ?thesis using ms p1 by (simp add: bindM_def)
    next
      case (Inr a)
      have eq: "bindM m f s = f a s1" using ms Inr by (simp add: bindM_def)
      have "params (snd (f a s1)) = params s1 \<and> training (snd (f a s1)) = training s1"
        using assms(2)[of a] unfolding frame_def by blast
      then show ?thesis using p1 eq by simp
    qed
  qed
  then show ?thesis unfolding frame_def by blast
qed

lemma frame_callM: "frame (callM T n m args)"
  by (simp add: frame_def callM_def split: prod.splits)

lemma frame_embeddingM: "frame (embeddingM T n m l)"
  by (simp add: frame_def embeddingM_def)

lemma frame_randM: "frame (randM T n)"
  by (simp add: frame_def randM_def split: prod.splits)

lemma frame_randintM: "frame (randintM T lo hi n)"
  by (simp add: frame_def randintM_def split: prod.splits)

lemma frame_parameterM: "frame (parameterM T n)"
  by (simp add: frame_def parameterM_def)

lemma frame_if: "frame a \<Longrightarrow> frame b \<Longrightarrow> frame (if c then a else b)" by simp

lemma frame_case_prod: "(\<And>a b. frame (f a b)) \<Longrightarrow> frame (case p of (a, b) \<Rightarrow> f a b)"
  by (cases p) simp

lemma frame_case_option: "frame a \<Longrightarrow> (\<And>x. frame (f x)) \<Longrightarrow> frame (case v of None \<Rightarrow> a | Some x \<Rightarrow> f x)"
  by (cases v) simp_all

lemma frame_case_list: "frame a \<Longrightarrow> (\<And>x xs. frame (f x xs)) \<Longrightarrow> frame (case v of [] \<Rightarrow> a | x # xs \<Rightarrow> f x xs)"
  by (cases v) simp_all

lemma frame_Let: "(\<And>x. frame (f x)) \<Longrightarrow> frame (Let v f)" by simp

lemmas frame_intros = frame_returnM frame_raiseM frame_liftE frame_bindM frame_callM
  frame_embeddingM frame_randM frame_randintM frame_parameterM frame_if frame_case_prod
  frame_case_option frame_case_list frame_Let

lemma frame_encoder: "frame (encoder T stages i x time c h)"
proof (induction T stages i x time c h rule: encoder.induct)
  case (1 T i x time c h)
  show ?case by (simp add: frame_returnM)
next
  case (2 T block1 block2 attn down rest i x time c h)
  show ?case
    unfolding encoder.simps Let_def
    by (intro frame_bindM frame_callM frame_liftE "2.IH"[OF refl refl])
qed

lemma frame_decoder: "frame (decoder T stages i x time c h)"
proof (induction T stages i x time c h rule: decoder.induct)
  case (1 T i x time c h)
  show ?case by (simp add: frame_returnM)
next
  case (2 T block1 block2 attn up rest i x time c h)
  show ?case
    unfolding decoder.simps
    by (intro frame_bindM frame_callM frame_liftE frame_case_prod "2.IH" refl)
qed

lemma frame_run_blocks: "frame (run_blocks T bs i x time c)"
proof (induction T bs i x time c rule: run_blocks.induct)
  case (1 T i x time c)
  show ?case by (simp add: frame_returnM)
next
  case (2 T block rest i x time c)
  show ?case
    unfolding run_blocks.simps
    by (intro frame_bindM frame_callM "2.IH")
qed

lemma frame_Unet_conditioning: "frame (Unet_conditioning T net batch classes p)"
  unfolding Unet_conditioning_def by (intro frame_intros)

lemma frame_Unet_main: "frame (Unet_main T net batch x time c)"
  unfolding Unet_main_def by (intro frame_intros frame_encoder frame_decoder)

lemma frame_Unet_forward: "frame (Unet_forward T net x time classes p)"
  unfolding Unet_forward_def Unet_forward_aux_def
  by (intro frame_intros frame_Unet_conditioning frame_Unet_main)

lemma frame_LinearNetwork_conditioning: "frame (LinearNetwork_conditioning T net batch classes p)"
  unfolding LinearNetwork_conditioning_def by (intro frame_intros)

lemma frame_LinearNetwork_forward: "frame (LinearNetwork_forward T net x time classes p)"
  unfolding LinearNetwork_forward_def LinearNetwork_time_def
  by (intro frame_intros frame_LinearNetwork_conditioning frame_run_blocks)

lemma frame_forward_with_cond_scale:
  "(\<And>a p. frame (forward a p)) \<Longrightarrow> frame (forward_with_cond_scale T forward args cs phi)"
  unfolding forward_with_cond_scale_def by (intro frame_intros)

lemma if_one_nat: "(if x = (1::nat) then 1 else x) = x" by simp

lemma broadcast_same4: "broadcast [b, c, h, w] [b, c, h, w] = Inr [b, c, h, w]"
  by (simp add: broadcast_def bindE_def)

lemma broadcast_same2: "broadcast [b, c] [b, c] = Inr [b, c]"
  by (simp add: broadcast_def bindE_def)

lemma broadcast_mod4: "broadcast [b, c, h, w] [b, c, Suc 0, Suc 0] = Inr [b, c, h, w]"
  by (simp add: broadcast_def bindE_def)

lemma broadcast_gain4: "broadcast [b, c, h, w] [Suc 0, c, Suc 0, Suc 0] = Inr [b, c, h, w]"
  by (simp add: broadcast_def bindE_def)

lemma broadcast_outer: "broadcast [b, Suc 0] [Suc 0, k] = Inr [b, k]"
  by (simp add: broadcast_def bindE_def)

lemma modulate4: "modulate [b, c, h, w] [b, c, Suc 0, Suc 0] [b, c, Suc 0, Suc 0] = Inr [b, c, h, w]"
  by (simp add: modulate_def broadcast_mod4 bindE_def)

lemma modulate2: "modulate [b, c] [b, c] [b, c] = Inr [b, c]"
  by (simp add: modulate_def broadcast_same2 bindE_def)

lemma chunk_sizes_mult: "0 < n \<Longrightarrow> chunk_sizes n (k * n) = replicate n k"
proof (cases "k = 0")
  case True
  assume "0 < n"
  then have "(n - 1) div n = 0" by simp
  then show ?thesis using True by (simp add: chunk_sizes_def)
next
  case False
  assume n: "0 < n"
  have "k * n + n - 1 = (n - 1) + k * n" using n by simp
  then have "(k * n + n - 1) div n = k + (n - 1) div n" using n by (simp only: div_mult_self1)
  then have "(k * n + n - 1) div n = k" using n by simp
  then show ?thesis using False n by (simp add: chunk_sizes_def)
qed

lemma chunk_sizes_2: "chunk_sizes 2 (k * 2) = [k, k]"
  using chunk_sizes_mult[of 2 k] by (simp add: numeral_2_eq_2)

lemma chunk_sizes_3: "chunk_sizes 3 (k * 3) = [k, k, k]"
  using chunk_sizes_mult[of 3 k] by (simp add: numeral_3_eq_3)

lemma cat_last_2: "cat_last [[b, m], [b, n]] = Inr [b, m + n]"
  by (simp add: cat_last_def cat_shape_def)

lemma cat_shape_ch: "cat_shape [[b, c, h, w], [b, c', h, w]] 1 = Inr [b, c + c', h, w]"
  by (simp add: cat_shape_def)

lemma Block_shape:
  assumes "g \<noteq> 0" "out mod g = 0" "0 < h" "0 < w"
  shows "forward_shape (Block (Conv2d i out 3 (Suc 0)) (GroupNorm g out) SiLU) [Some [b, i, h, w]] = Inr [b, out, h, w]"
    and "forward_shape (Block (Conv2d i out 3 (Suc 0)) (GroupNorm g out) SiLU)
           [Some [b, i, h, w], Some [b, out, Suc 0, Suc 0], Some [b, out, Suc 0, Suc 0]] = Inr [b, out, h, w]"
  using assms
  by (simp_all add: bindE_def conv2d_shape_def group_norm_shape_def modulate4)

lemma Block_init_eq:
  assumes "0 < g"
  shows "Block_init i out g = Inr (Block (Conv2d i out 3 1) (GroupNorm (if out mod g \<noteq> 0 then 1 else g) out) SiLU)"
  using assms by (simp add: Block_init_def GroupNorm_init_def bindE_def Let_def)

lemma ResnetBlock_shape:
  assumes init: "ResnetBlock_init i out (Some td) cdim g = Inr rb"
    and g: "0 < g" and h: "0 < h" and w: "0 < w" and c: "cond_ok cdim c b"
  shows "forward_shape rb [Some [b, i, h, w], Some [b, td], c] = Inr [b, out, h, w]"
proof -
  define g' where "g' = (if out mod g \<noteq> 0 then 1 else g)"
  have g': "g' \<noteq> 0" "out mod g' = 0" using g by (auto simp: g'_def)
  define mlp where "mlp = Sequential [SiLU, Linear (td + default cdim 0) (out * 2)]"
  define res where "res = (if i \<noteq> out then Conv2d i out 1 0 else Identity)"
  have rb: "rb = ResnetBlock (Some mlp) (Block (Conv2d i out 3 1) (GroupNorm g' out) SiLU)
      (Block (Conv2d out out 3 1) (GroupNorm g' out) SiLU) res"
    using init g
    by (simp add: ResnetBlock_init_def Block_init_eq bindE_def Let_def exists_def default_def
        g'_def mlp_def res_def)
  have emb: "(if exists (Some [b, td]) \<or> exists c then
               bindE (cat_last (List.map_filter (\<lambda>v. v) [Some [b, td], c])) (\<lambda>e.
               bindE (forward_shape mlp [Some e]) (\<lambda>emb. chunk_shapes 2 1 (emb @ [1, 1])))
             else Inr []) = Inr [[b, out, 1, 1], [b, out, 1, 1]]"
  proof (cases cdim)
    case None
    then have "c = None" using c by (simp add: cond_ok_def)
    then show ?thesis using None
      by (simp add: List.map_filter_def cat_last_def cat_shape_def bindE_def mlp_def default_def
          linear_shape_def chunk_shapes_def chunk_sizes_2 exists_def)
  next
    case (Some k)
    then have "c = Some [b, k]" using c by (simp add: cond_ok_def)
    then show ?thesis using Some
      by (simp add: List.map_filter_def cat_last_2 bindE_def mlp_def default_def
          linear_shape_def chunk_shapes_def chunk_sizes_2 exists_def)
  qed
  have res: "forward_shape res [Some [b, i, h, w]] = Inr [b, out, h, w]"
    using h w by (simp add: res_def conv2d_shape_def)
  show ?thesis
    unfolding rb
    apply (simp only: forward_shape.simps(18) list.case option.case emb)
    using g' h w
    apply (simp add: bindE_def res broadcast_same4 conv2d_shape_def group_norm_shape_def modulate4)
    done
qed

lemma conv3_shape:
  "0 < h \<Longrightarrow> 0 < w \<Longrightarrow> forward_shape (Conv2d i out 3 (Suc 0)) [Some [b, i, h, w]] = Inr [b, out, h, w]"
  by (simp add: conv2d_shape_def)

lemma conv1_shape:
  "0 < h \<Longrightarrow> 0 < w \<Longrightarrow> forward_shape (Conv2d i out (Suc 0) 0) [Some [b, i, h, w]] = Inr [b, out, h, w]"
  by (simp add: conv2d_shape_def)

lemma conv7_shape:
  "0 < h \<Longrightarrow> 0 < w \<Longrightarrow> forward_shape (Conv2d i out 7 3) [Some [b, i, h, w]] = Inr [b, out, h, w]"
  by (simp add: conv2d_shape_def)

lemma downsample_shape:
  assumes "0 < h" "0 < w" "h mod 2 = 0" "w mod 2 = 0"
  shows "forward_shape (downsample i (Some out)) [Some [b, i, h, w]] = Inr [b, out, h div 2, w div 2]"
proof -
  have "0 < h div 2" "0 < w div 2" using assms by presburger+
  then show ?thesis using assms
    by (simp add: downsample_def default_def rearrange_down_shape_def bindE_def conv2d_shape_def)
qed

lemma upsample_shape':
  assumes "0 < h" "0 < w"
  shows "forward_shape (upsample out (Some i)) [Some [b, out, h, w]] = Inr [b, i, 2 * h, 2 * w]"
  using assms
  by (simp add: upsample_def default_def upsample_shape_def bindE_def conv2d_shape_def)

lemma Attend_init_cases:
  assumes "Attend_init E dr fl = Inr att"
  shows "\<exists>cc cu. att = Attend dr fl cc cu"
  using assms by (auto simp: Attend_init_def Let_def split: if_splits)

lemma Attention_shape:
  assumes init: "Attention_init E d heads dh fl = Inr m"
    and hd: "0 < heads" and h: "0 < h" and w: "0 < w"
  shows "forward_shape m [Some [b, d, h, w]] = Inr [b, d, h, w]"
proof -
  obtain att where att: "Attend_init E 0 fl = Inr att"
    and m: "m = Attention heads (RMSNorm d) att (Conv2d d (dh * heads * 3) 1 0) (Conv2d (dh * heads) d 1 0)"
    using init by (auto simp: Attention_init_def bindE_def Let_def split: sum.splits)
  obtain cc cu where a: "att = Attend 0 fl cc cu" using Attend_init_cases[OF att] by blast
  have comm: "heads * dh = dh * heads" by simp
  show ?thesis
    unfolding m a using hd h w
    by (simp add: bindE_def broadcast_gain4 conv2d_shape_def chunk_shapes_def chunk_sizes_3
        split_heads_nc_def attend_shape_def einsum_sim_def einsum_out_def merge_heads_nd_def comm)
qed

lemma LinearAttention_shape:
  assumes init: "LinearAttention_init d heads dh = Inr m"
    and hd: "0 < heads" and h: "0 < h" and w: "0 < w"
  shows "forward_shape m [Some [b, d, h, w]] = Inr [b, d, h, w]"
proof -
  have m: "m = LinearAttention heads dh (RMSNorm d) (Conv2d d (dh * heads * 3) 1 0)
                  (Sequential [Conv2d (dh * heads) d 1 0, RMSNorm d])"
    using init by (auto simp: LinearAttention_init_def Let_def split: if_splits)
  have comm: "heads * dh = dh * heads" by simp
  show ?thesis
    unfolding m using hd h w
    by (simp add: bindE_def broadcast_gain4 conv2d_shape_def chunk_shapes_def chunk_sizes_3
        split_heads_cn_def einsum_context_def einsum_lin_out_def merge_heads_cn_def comm)
qed

lemma attn_class_shape:
  assumes "attn_class E fl f d dh heads = Inr m" "0 < heads" "0 < h" "0 < w"
  shows "forward_shape m [Some [b, d, h, w]] = Inr [b, d, h, w]"
  using assms Attention_shape LinearAttention_shape
  by (auto simp: attn_class_def split: if_splits)

lemma skips_snoc:
  "ds \<noteq> [] \<Longrightarrow> skips b (ds @ [z]) h w =
     skips b ds h w @ [[b, last ds, h div 2 ^ (length ds - 1), w div 2 ^ (length ds - 1)],
                       [b, last ds, h div 2 ^ (length ds - 1), w div 2 ^ (length ds - 1)]]"
proof (induction b ds h w rule: skips.induct)
  case (1 b d d' rest h w)
  have "(h div 2) div 2 ^ length rest = h div 2 ^ Suc (length rest)"
       "(w div 2) div 2 ^ length rest = w div 2 ^ Suc (length rest)"
    by (simp_all add: div_mult2_eq)
  then show ?case using 1 by simp
next
  case (2 b d h w)
  then show ?case by simp
next
  case (3 b h w)
  then show ?case by simp
qed

lemma yields_returnM: "yields (returnM v) v" by (simp add: yields_def returnM_def)

lemma yields_bindM:
  assumes "yields m a" "yields (f a) b"
  shows "yields (bindM m f) b"
proof -
  have "fst (bindM m f s) = Inr b" for s
  proof -
    obtain r s1 where ms: "m s = (r, s1)" by (cases "m s")
    have "fst (m s) = Inr a" using assms(1) by (simp add: yields_def)
    then have r: "r = Inr a" using ms by simp
    have "bindM m f s = f a s1" using ms r by (simp add: bindM_def)
    then show ?thesis using assms(2) by (simp add: yields_def)
  qed
  then show ?thesis by (simp add: yields_def)
qed

lemma yields_liftE: "r = Inr v \<Longrightarrow> yields (liftE r) v" by (simp add: yields_def liftE_def)

lemma yields_callM:
  "forward_shape m args = Inr v \<Longrightarrow> yields (callM torch_shape n m args) v"
  by (simp add: yields_def callM_def torch_shape_def)

lemmas torch_shape_simps =
  torch_shape_def[THEN arg_cong[where f = shape_of], simplified]

lemma torch_shape_fields [simp]:
  "shape_of torch_shape x = x"
  "add torch_shape = broadcast"
  "cat torch_shape = cat_shape"
  "expand torch_shape = expand_shape"
  "unsqueeze_last torch_shape = unsqueeze_shape"
  by (simp_all add: torch_shape_def)

lemma down_stage_sem:
  assumes "down_stage E fl (\<lambda>i out. ResnetBlock_init i out (Some td) cdim g) N (i, (din, dout), f, nh, dh)
             = Inr (b1, b2, an, dn)"
  shows "ResnetBlock_init din din (Some td) cdim g = Inr b1"
    and "ResnetBlock_init din din (Some td) cdim g = Inr b2"
    and "attn_class E fl f din dh nh = Inr an"
    and "dn = (if \<not> N \<le> i + 1 then downsample din (Some dout) else Conv2d din dout 3 1)"
  using assms by (auto simp: down_stage_def bindE_def Let_def split: sum.splits)

lemma encoder_step:
  assumes st: "down_stage E fl (\<lambda>i out. ResnetBlock_init i out (Some td) cdim g) N (i, (din, dout), f, nh, dh)
             = Inr stage"
    and g: "0 < g" and nh: "0 < nh" and h: "0 < h" and w: "0 < w" and c: "cond_ok cdim c b"
    and dn: "\<And>dn. stage = (fst stage, fst (snd stage), fst (snd (snd stage)), dn) \<Longrightarrow>
               forward_shape dn [Some [b, din, h, w]] = Inr x'"
    and rest: "yields (encoder torch_shape rest (Suc j) x' [b, td] c
                 (hs @ [[b, din, h, w], [b, din, h, w]])) r"
  shows "yields (encoder torch_shape (stage # rest) j [b, din, h, w] [b, td] c hs) r"
proof -
  obtain b1 b2 an dn' where stage: "stage = (b1, b2, an, dn')" by (cases stage) auto
  note sem = down_stage_sem[OF st[unfolded stage]]
  have dn': "forward_shape dn' [Some [b, din, h, w]] = Inr x'" using dn[of dn'] stage by simp
  show ?thesis
    unfolding stage encoder.simps Let_def
    apply (rule yields_bindM)
     apply (rule yields_callM)
     apply (rule ResnetBlock_shape[OF sem(1) g h w c])
    apply (rule yields_bindM)
     apply (rule yields_callM)
     apply (rule ResnetBlock_shape[OF sem(2) g h w c])
    apply (rule yields_bindM)
     apply (rule yields_callM)
     apply (rule attn_class_shape[OF sem(3) nh h w])
    apply (rule yields_bindM)
     apply (rule yields_liftE)
     apply (simp add: broadcast_same4)
    apply (rule yields_bindM)
     apply (rule yields_callM)
     apply (rule dn')
    using rest apply simp
    done
qed

lemma mapE_Cons_Inr:
  "mapE f (x # xs) = Inr ys \<longleftrightarrow> (\<exists>y ys'. f x = Inr y \<and> mapE f xs = Inr ys' \<and> ys = y # ys')"
  by (auto simp: bindE_def split: sum.splits)

lemma mapE_Nil_Inr: "mapE f [] = Inr ys \<longleftrightarrow> ys = []"
  by auto

lemma upt_add_Suc: "[i ..< i + Suc n] = i # [Suc i ..< Suc i + n]"
  by (simp add: upt_conv_Cons)

lemma pow2_dvd_half:
  assumes "2 ^ Suc k dvd (h::nat)" "0 < h"
  shows "h mod 2 = 0" "0 < h div 2" "2 ^ k dvd h div 2" "(h div 2) div 2 ^ k = h div 2 ^ Suc k"
proof -
  obtain q where q: "h = 2 ^ Suc k * q" using assms(1) by (auto simp: dvd_def)
  then have h2: "h = 2 * (2 ^ k * q)" by simp
  show "h mod 2 = 0" using h2 by presburger
  have d: "h div 2 = 2 ^ k * q" using h2 by simp
  show "0 < h div 2" using d assms(2) q by (cases q) auto
  show "2 ^ k dvd h div 2" using d by simp
  show "(h div 2) div 2 ^ k = h div 2 ^ Suc k" by (simp add: div_mult2_eq)
qed

lemma encoder_shape:
  assumes "mapE (down_stage E fl (\<lambda>i out. ResnetBlock_init i out (Some td) cdim g) N)
             (zip [i0 ..< i0 + length ts] (zip (zip (butlast ds) (tl ds)) ts)) = Inr stages"
    and "length ds = Suc (length ts)" and "i0 + length ts = N"
    and "list_all (\<lambda>(f, nh, dh). 0 < nh) ts"
    and "0 < g" and "cond_ok cdim c b" and "0 < h" and "0 < w"
    and "2 ^ (length ts - 1) dvd h" and "2 ^ (length ts - 1) dvd w"
  shows "yields (encoder torch_shape stages j [b, hd ds, h, w] [b, td] c hs)
           ([b, last ds, h div 2 ^ (length ts - 1), w div 2 ^ (length ts - 1)],
            hs @ skips b ds h w)"
  using assms
proof (induction b ds h w arbitrary: i0 ts stages j hs rule: skips.induct)
  case (1 b d d' rest h w)
  obtain t ts' where ts: "ts = t # ts'" using "1.prems"(2) by (cases ts) auto
  obtain f nh dh where t: "t = (f, nh, dh)" by (cases t) auto
  have len': "length (d' # rest) = Suc (length ts')" using "1.prems"(2) ts by simp
  have nh: "0 < nh" and pos': "list_all (\<lambda>(f, nh, dh). 0 < nh) ts'"
    using "1.prems"(4) ts t by simp_all
  have zipeq: "zip [i0 ..< i0 + length ts] (zip (zip (butlast (d # d' # rest)) (tl (d # d' # rest))) ts)
      = (i0, (d, d'), f, nh, dh) #
        zip [Suc i0 ..< Suc i0 + length ts'] (zip (zip (butlast (d' # rest)) (tl (d' # rest))) ts')"
  proof -
    have up: "[i0 ..< i0 + length ts] = i0 # [Suc i0 ..< Suc i0 + length ts']"
      unfolding ts using upt_add_Suc[of i0 "length ts'"] by (simp only: list.size add_Suc_right add_0_right)
    show ?thesis unfolding up unfolding ts t by simp
  qed
  obtain stage stages' where st: "down_stage E fl (\<lambda>i out. ResnetBlock_init i out (Some td) cdim g) N
        (i0, (d, d'), f, nh, dh) = Inr stage"
    and st': "mapE (down_stage E fl (\<lambda>i out. ResnetBlock_init i out (Some td) cdim g) N)
        (zip [Suc i0 ..< Suc i0 + length ts'] (zip (zip (butlast (d' # rest)) (tl (d' # rest))) ts')) = Inr stages'"
    and stages: "stages = stage # stages'"
    using "1.prems"(1) unfolding zipeq mapE_Cons_Inr by blast
  obtain b1 b2 an dn where stage: "stage = (b1, b2, an, dn)" by (cases stage) auto
  note sem = down_stage_sem[OF st[unfolded stage]]
  show ?case
  proof (cases ts')
    case Nil
    then have rest: "rest = []" using len' by simp
    have last: "N \<le> i0 + 1" using "1.prems"(3) ts Nil by simp
    have dn: "dn = Conv2d d d' 3 1" using sem(4) last by simp
    have stages': "stages' = []" using st' Nil by simp
    have r: "yields (encoder torch_shape [] (Suc j) [b, d', h, w] [b, td] c
               (hs @ [[b, d, h, w], [b, d, h, w]]))
             ([b, d', h, w], hs @ [[b, d, h, w], [b, d, h, w]])"
      by (simp add: yields_returnM)
    have "yields (encoder torch_shape (stage # []) j [b, d, h, w] [b, td] c hs)
             ([b, d', h, w], hs @ [[b, d, h, w], [b, d, h, w]])"
      apply (rule encoder_step[OF st "1.prems"(5) nh "1.prems"(7) "1.prems"(8) "1.prems"(6) _ r])
      using stage dn "1.prems"(7,8) by (simp add: conv2d_shape_def)
    then show ?thesis using stages stages' ts Nil rest by simp
  next
    case (Cons t2 ts'')
    have notlast: "\<not> N \<le> i0 + 1" using "1.prems"(3) ts Cons by simp
    have dn: "dn = downsample d (Some d')" using sem(4) notlast by simp
    have lts: "length ts - 1 = Suc (length ts' - 1)" using ts Cons by simp
    note hh = pow2_dvd_half[OF "1.prems"(9)[unfolded lts] "1.prems"(7)]
    note ww = pow2_dvd_half[OF "1.prems"(10)[unfolded lts] "1.prems"(8)]
    have IH: "yields (encoder torch_shape stages' (Suc j) [b, hd (d' # rest), h div 2, w div 2] [b, td] c
                (hs @ [[b, d, h, w], [b, d, h, w]]))
           ([b, last (d' # rest), (h div 2) div 2 ^ (length ts' - 1), (w div 2) div 2 ^ (length ts' - 1)],
            (hs @ [[b, d, h, w], [b, d, h, w]]) @ skips b (d' # rest) (h div 2) (w div 2))"
      apply (rule "1.IH"[OF st' len' _ pos' "1.prems"(5) "1.prems"(6) hh(2) ww(2) hh(3) ww(3)])
      using "1.prems"(3) ts by simp
    have "yields (encoder torch_shape (stage # stages') j [b, d, h, w] [b, td] c hs)
           ([b, last (d' # rest), (h div 2) div 2 ^ (length ts' - 1), (w div 2) div 2 ^ (length ts' - 1)],
            (hs @ [[b, d, h, w], [b, d, h, w]]) @ skips b (d' # rest) (h div 2) (w div 2))"
      apply (rule encoder_step[OF st "1.prems"(5) nh "1.prems"(7) "1.prems"(8) "1.prems"(6) _ IH[simplified list.sel]])
      using stage dn "1.prems"(7,8) hh(1) ww(1) by (simp add: downsample_shape)
    then show ?thesis using stages lts hh(4) ww(4) by simp
  qed
next
  case (2 b d h w)
  then have "ts = []" by simp
  then have "stages = []" using "2.prems"(1) by simp
  then show ?case using \<open>ts = []\<close> by (simp add: yields_returnM)
next
  case (3 b h w)
  then show ?case by simp
qed

lemma up_stage_sem:
  assumes "up_stage E fl (\<lambda>i out. ResnetBlock_init i out (Some td) cdim g) N (i, (din, dout), f, nh, dh)
             = Inr (b1, b2, an, up)"
  shows "ResnetBlock_init (dout + din) dout (Some td) cdim g = Inr b1"
    and "ResnetBlock_init (dout + din) dout (Some td) cdim g = Inr b2"
    and "attn_class E fl f dout dh nh = Inr an"
    and "up = (if i + 1 \<noteq> N then upsample dout (Some din) else Conv2d dout din 3 1)"
  using assms by (auto simp: up_stage_def bindE_def Let_def split: sum.splits)

lemma pop_snoc: "pop (xs @ [x]) = Inr (x, xs)"
  by (simp add: pop_def)

lemma decoder_step:
  assumes st: "up_stage E fl (\<lambda>i out. ResnetBlock_init i out (Some td) cdim g) N (i, (din, dout), f, nh, dh)
             = Inr (b1, b2, an, up)"
    and g: "0 < g" and nh: "0 < nh" and h: "0 < h" and w: "0 < w" and c: "cond_ok cdim c b"
    and up: "forward_shape up [Some [b, dout, h, w]] = Inr x'"
    and rest: "yields (decoder torch_shape rest (Suc j) x' [b, td] c hs) r"
  shows "yields (decoder torch_shape ((b1, b2, an, up) # rest) j [b, dout, h, w] [b, td] c
           (hs @ [[b, din, h, w], [b, din, h, w]])) r"
proof -
  note sem = up_stage_sem[OF st]
  have p1: "pop (hs @ [[b, din, h, w], [b, din, h, w]]) = Inr ([b, din, h, w], hs @ [[b, din, h, w]])"
    using pop_snoc[of "hs @ [[b, din, h, w]]" "[b, din, h, w]"] by simp
  show ?thesis
    unfolding decoder.simps
    apply (rule yields_bindM)
     apply (rule yields_liftE)
     apply (rule p1)
    apply (simp only: prod.case)
    apply (rule yields_bindM)
     apply (rule yields_liftE)
     apply (simp only: torch_shape_fields)
     apply (rule cat_shape_ch)
    apply (rule yields_bindM)
     apply (rule yields_callM)
     apply (rule ResnetBlock_shape[OF sem(1) g h w c])
    apply (rule yields_bindM)
     apply (rule yields_liftE)
     apply (rule pop_snoc)
    apply (simp only: prod.case)
    apply (rule yields_bindM)
     apply (rule yields_liftE)
     apply (simp only: torch_shape_fields)
     apply (rule cat_shape_ch)
    apply (rule yields_bindM)
     apply (rule yields_callM)
     apply (rule ResnetBlock_shape[OF sem(2) g h w c])
    apply (rule yields_bindM)
     apply (rule yields_callM)
     apply (rule attn_class_shape[OF sem(3) nh h w])
    apply (rule yields_bindM)
     apply (rule yields_liftE)
     apply (simp add: broadcast_same4)
    apply (rule yields_bindM)
     apply (rule yields_callM)
     apply (rule up)
    apply (rule rest)
    done
qed

lemma pow2_double:
  assumes "2 ^ Suc k dvd (h::nat)"
  shows "2 * (h div 2 ^ Suc k) = h div 2 ^ k" and "2 ^ k dvd h"
proof -
  obtain q where q: "h = 2 ^ Suc k * q" using assms by (auto simp: dvd_def)
  have a: "h div 2 ^ Suc k = q" unfolding q by simp
  have "h = 2 ^ k * (2 * q)" using q by simp
  then have b: "h div 2 ^ k = 2 * q" by simp
  show "2 * (h div 2 ^ Suc k) = h div 2 ^ k" using a b by simp
  show "2 ^ k dvd h" using \<open>h = 2 ^ k * (2 * q)\<close> by simp
qed

lemma pow2_div_pos:
  assumes "2 ^ k dvd (h::nat)" "0 < h"
  shows "0 < h div 2 ^ k"
proof -
  obtain q where q: "h = 2 ^ k * q" using assms(1) by (auto simp: dvd_def)
  then have "q \<noteq> 0" using assms(2) by (cases q) auto
  moreover have "h div 2 ^ k = q" unfolding q by simp
  ultimately show ?thesis by simp
qed

lemma decoder_shape:
  assumes "mapE (up_stage E fl (\<lambda>i out. ResnetBlock_init i out (Some td) cdim g) N)
             (zip [j0 ..< j0 + length ts] (zip (zip (tl rds) (butlast rds)) ts)) = Inr stages"
    and "length rds = Suc (length ts)" and "j0 + length ts = N"
    and "list_all (\<lambda>(f, nh, dh). 0 < nh) ts"
    and "0 < g" and "cond_ok cdim c b" and "0 < h" and "0 < w"
    and "2 ^ (length ts - 1) dvd h" and "2 ^ (length ts - 1) dvd w"
  shows "yields (decoder torch_shape stages j
                   [b, hd rds, h div 2 ^ (length ts - 1), w div 2 ^ (length ts - 1)] [b, td] c
                   (hs @ skips b (rev rds) h w))
           ([b, last rds, h, w], hs)"
  using assms
proof (induction rds arbitrary: j0 ts stages j rule: induct_list012)
  case 1
  then show ?case by simp
next
  case (2 x)
  then have "ts = []" by simp
  then have "stages = []" using "2.prems"(1) by simp
  then show ?case using \<open>ts = []\<close> by (simp add: yields_returnM)
next
  case (3 d' a rest)
  obtain t ts' where ts: "ts = t # ts'" using "3.prems"(2) by (cases ts) auto
  obtain f nh dh where t: "t = (f, nh, dh)" by (cases t) auto
  have len': "length (a # rest) = Suc (length ts')" using "3.prems"(2) ts by simp
  have nh: "0 < nh" and pos': "list_all (\<lambda>(f, nh, dh). 0 < nh) ts'"
    using "3.prems"(4) ts t by simp_all
  have zipeq: "zip [j0 ..< j0 + length ts] (zip (zip (tl (d' # a # rest)) (butlast (d' # a # rest))) ts)
      = (j0, (a, d'), f, nh, dh) #
        zip [Suc j0 ..< Suc j0 + length ts'] (zip (zip (tl (a # rest)) (butlast (a # rest))) ts')"
  proof -
    have up: "[j0 ..< j0 + length ts] = j0 # [Suc j0 ..< Suc j0 + length ts']"
      unfolding ts using upt_add_Suc[of j0 "length ts'"] by (simp only: list.size add_Suc_right add_0_right)
    show ?thesis unfolding up unfolding ts t by simp
  qed
  obtain stage stages' where st: "up_stage E fl (\<lambda>i out. ResnetBlock_init i out (Some td) cdim g) N
        (j0, (a, d'), f, nh, dh) = Inr stage"
    and st': "mapE (up_stage E fl (\<lambda>i out. ResnetBlock_init i out (Some td) cdim g) N)
        (zip [Suc j0 ..< Suc j0 + length ts'] (zip (zip (tl (a # rest)) (butlast (a # rest))) ts')) = Inr stages'"
    and stages: "stages = stage # stages'"
    using "3.prems"(1) unfolding zipeq mapE_Cons_Inr by blast
  obtain b1 b2 an up where stage: "stage = (b1, b2, an, up)" by (cases stage) auto
  note sem = up_stage_sem[OF st[unfolded stage]]
  define hk where "hk = h div 2 ^ length ts'"
  define wk where "wk = w div 2 ^ length ts'"
  have lts: "length ts - 1 = length ts'" using ts by simp
  have dv: "2 ^ length ts' dvd h" "2 ^ length ts' dvd w" using "3.prems"(9,10) lts by simp_all
  have hk: "0 < hk" and wk: "0 < wk"
    using pow2_div_pos[OF dv(1) "3.prems"(7)] pow2_div_pos[OF dv(2) "3.prems"(8)]
    by (simp_all add: hk_def wk_def)
  have lr: "length rest = length ts'" using len' by simp
  have sk: "skips b (rev (d' # a # rest)) h w
      = skips b (rev (a # rest)) h w @ [[b, a, hk, wk], [b, a, hk, wk]]"
    using skips_snoc[of "rev rest @ [a]" b d' h w] lr by (simp add: hk_def wk_def)
  show ?case
  proof (cases ts')
    case Nil
    then have rest: "rest = []" using len' by simp
    have last: "j0 + 1 = N" using "3.prems"(3) ts Nil by simp
    have up: "up = Conv2d d' a 3 1" using sem(4) last by simp
    have stages': "stages' = []" using st' Nil by simp
    have hkh: "hk = h" "wk = w" using Nil by (simp_all add: hk_def wk_def)
    have r: "yields (decoder torch_shape [] (Suc j) [b, a, hk, wk] [b, td] c hs) ([b, a, hk, wk], hs)"
      by (simp add: yields_returnM)
    have upx: "forward_shape up [Some [b, d', hk, wk]] = Inr [b, a, hk, wk]"
      using up hk wk by (simp add: conv2d_shape_def)
    have "yields (decoder torch_shape ((b1, b2, an, up) # []) j [b, d', hk, wk] [b, td] c
           (hs @ [[b, a, hk, wk], [b, a, hk, wk]])) ([b, a, hk, wk], hs)"
      by (rule decoder_step[OF st[unfolded stage] "3.prems"(5) nh hk wk "3.prems"(6) upx r])
    then show ?thesis
      using stages stages' stage sk rest hkh lts Nil by simp
  next
    case (Cons t2 ts'')
    have notlast: "j0 + 1 \<noteq> N" using "3.prems"(3) ts Cons by simp
    have up: "up = upsample d' (Some a)" using sem(4) notlast by simp
    obtain k where k: "length ts' = Suc k" using Cons by simp
    have dbl: "2 * hk = h div 2 ^ (length ts' - 1)" "2 * wk = w div 2 ^ (length ts' - 1)"
      using pow2_double(1)[of k h] pow2_double(1)[of k w] dv unfolding k hk_def wk_def k
      by simp_all
    have dv': "2 ^ (length ts' - 1) dvd h" "2 ^ (length ts' - 1) dvd w"
      using pow2_double(2)[of k h] pow2_double(2)[of k w] dv unfolding k
      by simp_all
    have IH: "yields (decoder torch_shape stages' (Suc j)
                   [b, hd (a # rest), h div 2 ^ (length ts' - 1), w div 2 ^ (length ts' - 1)] [b, td] c
                   (hs @ skips b (rev (a # rest)) h w))
           ([b, last (a # rest), h, w], hs)"
      apply (rule "3.IH"(2)[OF st' len' _ pos' "3.prems"(5) "3.prems"(6) "3.prems"(7) "3.prems"(8) dv'])
      using "3.prems"(3) ts by simp
    have upx: "forward_shape up [Some [b, d', hk, wk]] = Inr [b, a, 2 * hk, 2 * wk]"
      using up hk wk by (simp add: upsample_shape')
    have "yields (decoder torch_shape ((b1, b2, an, up) # stages') j [b, d', hk, wk] [b, td] c
           ((hs @ skips b (rev (a # rest)) h w) @ [[b, a, hk, wk], [b, a, hk, wk]]))
           ([b, last (a # rest), h, w], hs)"
      apply (rule decoder_step[OF st[unfolded stage] "3.prems"(5) nh hk wk "3.prems"(6) upx])
      using IH dbl by simp
    then show ?thesis
      using stages stage sk lts by (simp add: hk_def wk_def)
  qed
qed

lemma bindE_eq_Inr: "bindE r f = Inr y \<longleftrightarrow> (\<exists>x. r = Inr x \<and> f x = Inr y)"
  by (simp add: bindE_def split: sum.splits)

lemma bindE_Inr: "bindE (Inr x) f = f x"
  by (simp add: bindE_def)

lemma if_Inl_eq_Inr: "((if c then Inl e else r) = Inr y) \<longleftrightarrow> (\<not> c \<and> r = Inr y)"
  by simp

lemma last_item_Inr: "last_item xs = Inr y \<longleftrightarrow> (xs \<noteq> [] \<and> y = last xs)"
  by (auto simp: last_item_def)

lemma Unet_init_fields:
  fixes E a net
  defines "dm \<equiv> a_dim a"
    and "n \<equiv> length (a_dim_mults a)"
    and "dims \<equiv> a_dim a # map (\<lambda>m. a_dim a * m) (a_dim_mults a)"
    and "cdim \<equiv> (if exists (a_num_classes a) then Some (a_dim a * 4) else None)"
  defines "fa \<equiv> cast_tuple (a_full_attn a) n"
    and "ah \<equiv> cast_tuple (a_attn_heads a) n"
    and "ad \<equiv> cast_tuple (a_attn_dim_head a) n"
  defines "bc \<equiv> (\<lambda>i out. ResnetBlock_init i out (Some (a_dim a * 4)) cdim (a_resnet_block_groups a))"
  assumes init: "Unet_init E a = Inr net"
    and ok: "unet_args_ok E a"
  shows "init_conv net = Conv2d (a_channels a) dm 7 3"
    and "time_mlp net = Sequential [SinusoidalPosEmb dm, Linear dm (dm * 4), GELU, Linear (dm * 4) (dm * 4)]"
    and "is_conditional_model net = exists (a_num_classes a)"
    and "cond_dim net = a_num_classes a"
    and "class_emb net = (case a_num_classes a of Some k \<Rightarrow> Some (Embedding k dm) | None \<Rightarrow> None)"
    and "classes_mlp net = (if exists (a_num_classes a)
           then Some (Sequential [Linear dm (dm * 4), GELU, Linear (dm * 4) (dm * 4)]) else None)"
    and "mapE (down_stage E (a_flash_attn a) bc (length (zip (butlast dims) (tl dims))))
           (enumerate_list (zip (zip (butlast dims) (tl dims)) (zip fa (zip ah ad)))) = Inr (downs net)"
    and "bc (last dims) (last dims) = Inr (mid_block1 net)"
    and "Attention_init E (last dims) (last ah) (last ad) (a_flash_attn a) = Inr (mid_attn net)"
    and "ah \<noteq> []" and "ad \<noteq> []"
    and "bc (last dims) (last dims) = Inr (mid_block2 net)"
    and "mapE (up_stage E (a_flash_attn a) bc (length (zip (butlast dims) (tl dims))))
           (enumerate_list (zip (rev (zip (butlast dims) (tl dims)))
              (zip (rev fa) (zip (rev ah) (rev ad))))) = Inr (ups net)"
    and "bc (dm * 2) dm = Inr (final_res_block net)"
    and "final_conv net = Conv2d dm (default (a_out_dim a) (a_channels a)) 1 0"
    and "out_dim net = default (a_out_dim a) (a_channels a)"
    and "cond_drop_prob net = (if exists (a_num_classes a) then a_cond_drop_prob a else 1)"
proof -
  have idim: "default (a_init_dim a) (a_dim a) = a_dim a"
    using ok by (auto simp: unet_args_ok_def default_def)
  have rl: "(a_learned_sinusoidal_cond a \<or> a_random_fourier_features a) = False"
    using ok by (simp add: unet_args_ok_def)
  note i1 = init[unfolded Unet_init_def Let_def idim rl if_False]
  note i2 = i1[folded dims_def n_def]
  note i3 = i2[folded cdim_def fa_def ah_def ad_def]
  note i4 = i3[folded bc_def]
  have ex: "\<exists>ds mb1 ma mb2 us frb.
      mapE (down_stage E (a_flash_attn a) bc (length (zip (butlast dims) (tl dims))))
           (enumerate_list (zip (zip (butlast dims) (tl dims)) (zip fa (zip ah ad)))) = Inr ds \<and>
      bc (last dims) (last dims) = Inr mb1 \<and> ah \<noteq> [] \<and> ad \<noteq> [] \<and>
      Attention_init E (last dims) (last ah) (last ad) (a_flash_attn a) = Inr ma \<and>
      bc (last dims) (last dims) = Inr mb2 \<and>
      mapE (up_stage E (a_flash_attn a) bc (length (zip (butlast dims) (tl dims))))
           (enumerate_list (zip (rev (zip (butlast dims) (tl dims)))
              (zip (rev fa) (zip (rev ah) (rev ad))))) = Inr us \<and>
      bc (a_dim a * 2) (a_dim a) = Inr frb \<and>
      net = \<lparr>cond_dim = a_num_classes a, is_conditional_model = exists (a_num_classes a),
             channels = a_channels a, init_dim = a_dim a,
             out_dim = default (a_out_dim a) (a_channels a),
             init_conv = Conv2d (a_channels a) (a_dim a) 7 3,
             random_or_learned_sinusoidal_cond = False,
             time_mlp = Sequential [SinusoidalPosEmb (a_dim a), Linear (a_dim a) (a_dim a * 4), GELU,
                                  Linear (a_dim a * 4) (a_dim a * 4)],
             cond_drop_prob = (if exists (a_num_classes a) then a_cond_drop_prob a else 1),
             class_emb = (case a_num_classes a of Some n \<Rightarrow> Some (Embedding n (a_dim a)) | None \<Rightarrow> None),
             classes_mlp = (if exists (a_num_classes a)
                          then Some (Sequential [Linear (a_dim a) (a_dim a * 4), GELU,
                                                 Linear (a_dim a * 4) (a_dim a * 4)])
                          else None),
             downs = ds, mid_block1 = mb1, mid_attn = ma,
             mid_block2 = mb2, ups = us,
             final_res_block = frb,
             final_conv = Conv2d (a_dim a) (default (a_out_dim a) (a_channels a)) 1 0\<rparr>"
  proof -
    note j0 = i4[unfolded bindE_Inr prod.case]
    note j1 = j0[unfolded if_Inl_eq_Inr bindE_eq_Inr last_item_Inr sum.inject]
    show ?thesis using j1 unfolding bc_def by (elim conjE exE) (simp only:, blast)
  qed
  then obtain ds mb1 ma mb2 us frb where
    f: "mapE (down_stage E (a_flash_attn a) bc (length (zip (butlast dims) (tl dims))))
           (enumerate_list (zip (zip (butlast dims) (tl dims)) (zip fa (zip ah ad)))) = Inr ds"
      "bc (last dims) (last dims) = Inr mb1" "ah \<noteq> []" "ad \<noteq> []"
      "Attention_init E (last dims) (last ah) (last ad) (a_flash_attn a) = Inr ma"
      "bc (last dims) (last dims) = Inr mb2"
      "mapE (up_stage E (a_flash_attn a) bc (length (zip (butlast dims) (tl dims))))
           (enumerate_list (zip (rev (zip (butlast dims) (tl dims)))
              (zip (rev fa) (zip (rev ah) (rev ad))))) = Inr us"
      "bc (a_dim a * 2) (a_dim a) = Inr frb"
    and net: "net = \<lparr>cond_dim = a_num_classes a, is_conditional_model = exists (a_num_classes a),
             channels = a_channels a, init_dim = a_dim a,
             out_dim = default (a_out_dim a) (a_channels a),
             init_conv = Conv2d (a_channels a) (a_dim a) 7 3,
             random_or_learned_sinusoidal_cond = False,
             time_mlp = Sequential [SinusoidalPosEmb (a_dim a), Linear (a_dim a) (a_dim a * 4), GELU,
                                  Linear (a_dim a * 4) (a_dim a * 4)],
             cond_drop_prob = (if exists (a_num_classes a) then a_cond_drop_prob a else 1),
             class_emb = (case a_num_classes a of Some n \<Rightarrow> Some (Embedding n (a_dim a)) | None \<Rightarrow> None),
             classes_mlp = (if exists (a_num_classes a)
                          then Some (Sequential [Linear (a_dim a) (a_dim a * 4), GELU,
                                                 Linear (a_dim a * 4) (a_dim a * 4)])
                          else None),
             downs = ds, mid_block1 = mb1, mid_attn = ma,
             mid_block2 = mb2, ups = us,
             final_res_block = frb,
             final_conv = Conv2d (a_dim a) (default (a_out_dim a) (a_channels a)) 1 0\<rparr>"
    by blast
  show "init_conv net = Conv2d (a_channels a) dm 7 3"
    and "time_mlp net = Sequential [SinusoidalPosEmb dm, Linear dm (dm * 4), GELU, Linear (dm * 4) (dm * 4)]"
    and "is_conditional_model net = exists (a_num_classes a)"
    and "cond_dim net = a_num_classes a"
    and "class_emb net = (case a_num_classes a of Some k \<Rightarrow> Some (Embedding k dm) | None \<Rightarrow> None)"
    and "classes_mlp net = (if exists (a_num_classes a)
           then Some (Sequential [Linear dm (dm * 4), GELU, Linear (dm * 4) (dm * 4)]) else None)"
    and "final_conv net = Conv2d dm (default (a_out_dim a) (a_channels a)) 1 0"
    and "out_dim net = default (a_out_dim a) (a_channels a)"
    and "cond_drop_prob net = (if exists (a_num_classes a) then a_cond_drop_prob a else 1)"
    unfolding net dm_def by simp_all
  show "mapE (down_stage E (a_flash_attn a) bc (length (zip (butlast dims) (tl dims))))
           (enumerate_list (zip (zip (butlast dims) (tl dims)) (zip fa (zip ah ad)))) = Inr (downs net)"
    and "bc (last dims) (last dims) = Inr (mid_block1 net)"
    and "Attention_init E (last dims) (last ah) (last ad) (a_flash_attn a) = Inr (mid_attn net)"
    and "ah \<noteq> []" and "ad \<noteq> []"
    and "bc (last dims) (last dims) = Inr (mid_block2 net)"
    and "mapE (up_stage E (a_flash_attn a) bc (length (zip (butlast dims) (tl dims))))
           (enumerate_list (zip (rev (zip (butlast dims) (tl dims)))
              (zip (rev fa) (zip (rev ah) (rev ad))))) = Inr (ups net)"
    and "bc (dm * 2) dm = Inr (final_res_block net)"
    using f unfolding net dm_def by simp_all
qed

lemma mapE_length: "mapE f xs = Inr ys \<Longrightarrow> length ys = length xs"
proof (induction xs arbitrary: ys)
  case Nil
  then show ?case by simp
next
  case (Cons x xs)
  then show ?case by (auto simp: bindE_eq_Inr)
qed

lemma cast_tuple_ok:
  assumes "attn_list_ok n t"
  shows "length (cast_tuple t n) = n" and "list_all (\<lambda>v. 0 < v) (cast_tuple t n)"
  using assms by (auto simp: attn_list_ok_def cast_tuple_def list_all_iff split: scalar_or_tuple.splits)

lemma zip3_pos:
  assumes "list_all (\<lambda>v. 0 < v) ah"
  shows "list_all (\<lambda>(f, nh, dh). 0 < (nh::nat)) (zip fa (zip ah ad))"
proof -
  have "0 < nh" if "(f, nh, dh) \<in> set (zip fa (zip ah ad))" for f nh dh
  proof -
    have "(nh, dh) \<in> set (zip ah ad)" using that by (rule set_zip_rightD)
    then have "nh \<in> set ah" by (rule set_zip_leftD)
    then show ?thesis using assms by (simp add: list_all_iff)
  qed
  then show ?thesis unfolding list_all_iff by auto
qed

lemma zip3_pos2:
  assumes "list_all (\<lambda>v. 0 < v) ad"
  shows "list_all (\<lambda>(f, nh, dh). 0 < (dh::nat)) (zip fa (zip ah ad))"
proof -
  have "0 < dh" if "(f, nh, dh) \<in> set (zip fa (zip ah ad))" for f nh dh
  proof -
    have "(nh, dh) \<in> set (zip ah ad)" using that by (rule set_zip_rightD)
    then have "dh \<in> set ad" by (rule set_zip_rightD)
    then show ?thesis using assms by (simp add: list_all_iff)
  qed
  then show ?thesis unfolding list_all_iff by auto
qed

lemma rev_zip_butlast_tl:
  "rev (zip (butlast xs) (tl xs)) = zip (tl (rev xs)) (butlast (rev xs))"
proof -
  have "length (butlast xs) = length (tl xs)" by simp
  then have "rev (zip (butlast xs) (tl xs)) = zip (rev (butlast xs)) (rev (tl xs))"
    by (simp add: zip_rev)
  also have "rev (butlast xs) = tl (rev xs)" by (induction xs) auto
  also have "rev (tl xs) = butlast (rev xs)" by (simp add: butlast_rev)
  finally show ?thesis .
qed

lemma powi_nat: "0 < n \<Longrightarrow> (2::rat) powi (int n - 1) = of_nat (2 ^ (n - 1))"
  by (cases n) (simp_all add: power_int_def)

lemma py_mod_of_nat: "0 < k \<Longrightarrow> py_mod (of_nat d) (of_nat k) = of_nat (d mod k)"
proof -
  assume "0 < k"
  have fl: "\<lfloor>(of_nat d :: rat) / of_nat k\<rfloor> = int (d div k)"
    by (simp add: floor_divide_of_nat_eq)
  have "(of_nat d :: rat) = of_nat (k * (d div k) + d mod k)" by simp
  then have "(of_nat d :: rat) = of_nat k * of_nat (d div k) + of_nat (d mod k)"
    by (simp only: of_nat_add of_nat_mult)
  then show ?thesis unfolding py_mod_def fl by simp
qed

lemma divisible_by_factor_iff:
  assumes "0 < length (downs net)"
  shows "divisible_by_factor net sh
           = list_all (\<lambda>d. 2 ^ (length (downs net) - 1) dvd d) (drop (length sh - 2) sh)"
proof -
  have k: "0 < (2::nat) ^ (length (downs net) - 1)" by simp
  have "py_mod (of_nat d) (downsample_factor net) = 0 \<longleftrightarrow> 2 ^ (length (downs net) - 1) dvd d" for d
    unfolding downsample_factor_def powi_nat[OF assms] py_mod_of_nat[OF k]
    by (simp add: dvd_eq_mod_eq_0)
  then show ?thesis by (simp add: divisible_by_factor_def)
qed

lemma expand_time: "expand_shape [Suc 0] [int b] = Inr [b]"
  by (simp add: expand_shape_def bindE_def)

lemma yields_time:
  assumes "time = [b] \<or> time = [1]"
  shows "yields (if shape_of torch_shape time = [1] then liftE (expand torch_shape time [int b])
                 else returnM time) [b]"
  using assms by (auto simp: yields_def liftE_def returnM_def expand_time)

lemma time_mlp_shape:
  assumes "dm mod 2 = 0" "4 \<le> dm"
  shows "forward_shape (Sequential [SinusoidalPosEmb dm, Linear dm (dm * 4), GELU, Linear (dm * 4) (dm * 4)])
           [Some [b]] = Inr [b, dm * 4]"
proof -
  have h1: "dm div 2 \<noteq> Suc 0" using assms by presburger
  have h2: "dm div 2 + dm div 2 = dm" using assms by presburger
  show ?thesis using h1
    by (simp add: Let_def unsqueeze_shape_def bindE_def broadcast_outer cat_last_2 h2 linear_shape_def)
qed

lemma Unet_main_shape:
  fixes E a net b h w time c
  defines "n \<equiv> length (a_dim_mults a)"
  assumes init: "Unet_init E a = Inr net" and ok: "unet_args_ok E a"
    and h: "0 < h" and w: "0 < w"
    and dh: "2 ^ (n - 1) dvd h" and dw: "2 ^ (n - 1) dvd w"
    and time: "time = [b] \<or> time = [1]"
    and c: "cond_ok (if exists (a_num_classes a) then Some (a_dim a * 4) else None) c b"
  shows "yields (Unet_main torch_shape net b [b, a_channels a, h, w] time c)
           ([b, default (a_out_dim a) (a_channels a), h, w], [])"
proof -
  define dm where "dm = a_dim a"
  define dims where "dims = a_dim a # map (\<lambda>m. a_dim a * m) (a_dim_mults a)"
  define cdim where "cdim = (if exists (a_num_classes a) then Some (a_dim a * 4) else None)"
  define fa where "fa = cast_tuple (a_full_attn a) (length (a_dim_mults a))"
  define ah where "ah = cast_tuple (a_attn_heads a) (length (a_dim_mults a))"
  define ad where "ad = cast_tuple (a_attn_dim_head a) (length (a_dim_mults a))"
  define g where "g = a_resnet_block_groups a"
  define fl where "fl = a_flash_attn a"
  define td where "td = a_dim a * 4"
  define ts where "ts = zip fa (zip ah ad)"
  define rts where "rts = zip (rev fa) (zip (rev ah) (rev ad))"
  define io where "io = zip (butlast dims) (tl dims)"
  define hm where "hm = h div 2 ^ (n - 1)"
  define wm where "wm = w div 2 ^ (n - 1)"
  note F = Unet_init_fields[OF init ok, folded dims_def cdim_def fa_def ah_def ad_def g_def fl_def,
      folded td_def, folded dm_def ts_def rts_def, folded io_def]
  have npos: "0 < n" and dm: "dm mod 2 = 0" "4 \<le> dm" and g: "0 < g"
    using ok by (simp_all add: unet_args_ok_def n_def dm_def g_def)
  have lfa: "length fa = n"
    using ok by (auto simp: unet_args_ok_def fa_def n_def cast_tuple_def split: scalar_or_tuple.splits)
  have hok: "attn_list_ok n (a_attn_heads a)" and dok: "attn_list_ok n (a_attn_dim_head a)"
    using ok by (simp_all add: unet_args_ok_def n_def)
  note AH = cast_tuple_ok[OF hok, folded n_def, folded ah_def[unfolded n_def[symmetric]]]
  note AD = cast_tuple_ok[OF dok, folded n_def, folded ad_def[unfolded n_def[symmetric]]]
  have lah: "length ah = n" and pah: "list_all (\<lambda>v. 0 < v) ah"
    using cast_tuple_ok[OF hok] by (simp_all add: ah_def n_def)
  have lad: "length ad = n" using cast_tuple_ok[OF dok] by (simp add: ad_def n_def)
  have lts: "length ts = n" and lrts: "length rts = n"
    by (simp_all add: ts_def rts_def lfa lah lad)
  have pts: "list_all (\<lambda>(f, nh, dh). 0 < nh) ts" unfolding ts_def by (rule zip3_pos[OF pah])
  have prts: "list_all (\<lambda>(f, nh, dh). 0 < nh) rts"
    unfolding rts_def by (rule zip3_pos) (use pah in \<open>simp add: list_all_iff\<close>)
  have ldims: "length dims = Suc n" by (simp add: dims_def n_def)
  have lio: "length io = n" by (simp add: io_def ldims)
  have hd_dims: "hd dims = dm" by (simp add: dims_def dm_def)
  have ne: "ah \<noteq> []" using lah npos by auto
  have hl: "0 < last ah" using pah ne by (simp add: list_all_iff)
  have down: "mapE (down_stage E fl (\<lambda>i out. ResnetBlock_init i out (Some td) cdim g) n)
      (zip [0 ..< 0 + length ts] (zip (zip (butlast dims) (tl dims)) ts)) = Inr (downs net)"
    using F(7) unfolding io_def[symmetric] by (simp add: enumerate_list_def lts lio)
  have up: "mapE (up_stage E fl (\<lambda>i out. ResnetBlock_init i out (Some td) cdim g) n)
      (zip [0 ..< 0 + length rts] (zip (zip (tl (rev dims)) (butlast (rev dims))) rts)) = Inr (ups net)"
    using F(13) unfolding rev_zip_butlast_tl[symmetric] io_def[symmetric] by (simp add: enumerate_list_def lrts lio)
  have ld: "length (downs net) = n" using mapE_length[OF down] by (simp add: lts ldims)
  have div: "divisible_by_factor net [b, a_channels a, h, w]"
    using dh dw npos by (simp add: divisible_by_factor_iff ld)
  have hm: "0 < hm" and wm: "0 < wm"
    using pow2_div_pos[OF dh h] pow2_div_pos[OF dw w] by (simp_all add: hm_def wm_def)
  have c': "cond_ok cdim c b" using c by (simp add: cdim_def)
  have enc: "yields (encoder torch_shape (downs net) 0 [b, hd dims, h, w] [b, td] c [])
      ([b, last dims, hm, wm], [] @ skips b dims h w)"
    unfolding hm_def wm_def lts[symmetric]
    by (rule encoder_shape[OF down _ _ pts g c' h w]) (use dh dw in \<open>simp_all add: ldims lts\<close>)
  have dec: "yields (decoder torch_shape (ups net) 0 [b, hd (rev dims), hm, wm] [b, td] c
                 ([] @ skips b (rev (rev dims)) h w))
      ([b, last (rev dims), h, w], [])"
    unfolding hm_def wm_def lrts[symmetric]
    by (rule decoder_shape[OF up _ _ prts g c' h w]) (use dh dw in \<open>simp_all add: ldims lrts\<close>)
  have lastrev: "last (rev dims) = dm" "hd (rev dims) = last dims"
    by (simp_all add: dims_def dm_def hd_rev)
  have two: "dm + dm = dm * 2" by simp
  have td_dm: "td = dm * 4" by (simp add: td_def dm_def)
  show ?thesis
    unfolding Unet_main_def Let_def
    apply (simp only: torch_shape_fields div not_True_eq_False if_False)
    apply (rule yields_bindM)
     apply (rule yields_callM)
     apply (simp only: F(1))
     apply (rule conv7_shape[OF h w])
    apply (rule yields_bindM)
     apply (rule yields_time[OF time, simplified torch_shape_fields])
    apply (rule yields_bindM)
     apply (rule yields_callM)
     apply (simp only: F(2))
     apply (rule time_mlp_shape[OF dm, folded td_dm])
    apply (rule yields_bindM)
     apply (rule enc[unfolded hd_dims td_def[symmetric], folded dm_def td_def])
    apply (simp only: prod.case)
    apply (rule yields_bindM)
     apply (rule yields_callM)
     apply (rule ResnetBlock_shape[OF F(8) g hm wm c'])
    apply (rule yields_bindM)
     apply (rule yields_callM)
     apply (rule Attention_shape[OF F(9) hl hm wm])
    apply (rule yields_bindM)
     apply (rule yields_liftE)
     apply (rule broadcast_same4)
    apply (rule yields_bindM)
     apply (rule yields_callM)
     apply (rule ResnetBlock_shape[OF F(12) g hm wm c'])
    apply (rule yields_bindM)
     apply (rule dec[unfolded lastrev rev_rev_ident])
    apply (simp only: prod.case)
    apply (rule yields_bindM)
     apply (rule yields_liftE)
     apply (rule cat_shape_ch)
    apply (rule yields_bindM)
     apply (rule yields_callM)
     apply (simp only: two)
     apply (rule ResnetBlock_shape[OF F(14) g h w c'])
    apply (rule yields_bindM)
     apply (rule yields_callM)
     apply (simp only: F(15))
     apply (rule conv1_shape[OF h w, unfolded One_nat_def[symmetric]])
    apply (simp add: yields_returnM)
    done
qed

lemma broadcast_mask: "broadcast [b, Suc 0] [b, d] = Inr [b, d]"
  by (simp add: broadcast_def bindE_def)

lemma expand_null: "expand_shape [d] [int b, - 1] = Inr [b, d]"
  by (simp add: expand_shape_def bindE_def)

lemma torch_shape_fields2 [simp]:
  "embedding torch_shape p n m l = embedding_shape m l"
  "parameter torch_shape p n = p n"
  "rand torch_shape k g = (replicate k 0, Suc g)"
  "randint torch_shape lo hi k g = (replicate k lo, Suc g)"
  "where_rows torch_shape msk x y = bindE (broadcast [length msk, 1] x) (\<lambda>m. broadcast m y)"
  "apply_module torch_shape p tr n m args g = (forward_shape m args, g)"
  by (simp_all add: torch_shape_def)

lemma mlp_shape:
  "forward_shape (Sequential [Linear d (d * 4), GELU, Linear (d * 4) (d * 4)]) [Some [b, d]] = Inr [b, d * 4]"
  by (simp add: bindE_def linear_shape_def)

lemma Unet_conditioning_shape:
  assumes cm: "is_conditional_model net" and cd: "cond_dim net = Some k"
    and ce: "class_emb net = Some (Embedding k d)"
    and cl: "classes_mlp net = Some (Sequential [Linear d (d * 4), GELU, Linear (d * 4) (d * 4)])"
    and k: "0 < k" and par: "params s (''null_classes_emb'', []) = [d]"
    and lab: "labels_ok k b classes"
  shows "fst (Unet_conditioning torch_shape net b classes p s) = Inr (Some [b, d * 4])"
    and "executed (snd (Unet_conditioning torch_shape net b classes p s))
           = executed s @ [(''class_emb'', []), (''classes_mlp'', [])]"
proof -
  have R: "fst (Unet_conditioning torch_shape net b classes p s) = Inr (Some [b, d * 4]) \<and>
     executed (snd (Unet_conditioning torch_shape net b classes p s))
           = executed s @ [(''class_emb'', []), (''classes_mlp'', [])]"
  proof (cases classes)
    case None
    have ir: "in_range k \<lparr>lshape = [b], lvalues = replicate b 0\<rparr>"
      using k by (simp add: in_range_def list_all_iff)
    show ?thesis
      unfolding Unet_conditioning_def None
      using cm cd ce cl k par ir
      by (simp add: bindM_def returnM_def raiseM_def liftE_def randintM_def randM_def embeddingM_def
          parameterM_def callM_def default_def embedding_shape_def expand_null broadcast_mask
          broadcast_same2 bindE_def linear_shape_def)
  next
    case (Some l)
    then have sh: "lshape l = [b] \<or> lshape l = [b, 1]" and ir: "in_range k l"
      using lab by (simp_all add: labels_ok_def)
    have ir': "in_range k (squeeze_last l)" using ir by (simp add: in_range_def squeeze_last_def)
    have sq: "lshape l = [b, 1] \<Longrightarrow> lshape (squeeze_last l) = [b]" by (simp add: squeeze_last_def)
    show ?thesis
      unfolding Unet_conditioning_def Some
      using cm cd ce cl k par ir ir' sh sq
      by (auto simp: bindM_def returnM_def raiseM_def liftE_def randintM_def randM_def embeddingM_def
          parameterM_def callM_def default_def embedding_shape_def expand_null broadcast_mask
          broadcast_same2 bindE_def linear_shape_def Let_def)
  qed
  show "fst (Unet_conditioning torch_shape net b classes p s) = Inr (Some [b, d * 4])"
    and "executed (snd (Unet_conditioning torch_shape net b classes p s))
           = executed s @ [(''class_emb'', []), (''classes_mlp'', [])]"
    using R by simp_all
qed

lemma Unet_conditioning_none:
  assumes "\<not> is_conditional_model net"
  shows "Unet_conditioning T net b classes p s = (Inr None, s)"
  using assms by (simp add: Unet_conditioning_def returnM_def)

lemma fst_bindM:
  assumes "fst (m s) = Inr a" "yields (f a) v"
  shows "fst (bindM m f s) = Inr v"
proof -
  obtain r s1 where ms: "m s = (r, s1)" by (cases "m s")
  then have "r = Inr a" using assms(1) by simp
  then have "bindM m f s = f a s1" using ms by (simp add: bindM_def)
  then show ?thesis using assms(2) by (simp add: yields_def)
qed

lemma Unet_forward_shape:
  assumes init: "Unet_init E a = Inr net" and ok: "unet_args_ok E a"
    and inp: "unet_input_ok a [b, c, h, w] time classes s"
  shows "fst (Unet_forward torch_shape net [b, c, h, w] time classes p s)
           = Inr [b, default (a_out_dim a) (a_channels a), h, w]"
proof -
  note F = Unet_init_fields[OF init ok]
  have c: "c = a_channels a" and h: "0 < h" and w: "0 < w"
    and dh: "2 ^ (length (a_dim_mults a) - 1) dvd h" and dw: "2 ^ (length (a_dim_mults a) - 1) dvd w"
    and time: "time = [b] \<or> time = [1]"
    using inp by (simp_all add: unet_input_ok_def)
  obtain cv where cv: "fst (Unet_conditioning torch_shape net b classes p s) = Inr cv"
    and cok: "cond_ok (if exists (a_num_classes a) then Some (a_dim a * 4) else None) cv b"
  proof (cases "a_num_classes a")
    case None
    then have "\<not> is_conditional_model net" using F(3) by (simp add: exists_def)
    then have "fst (Unet_conditioning torch_shape net b classes p s) = Inr None"
      by (simp add: Unet_conditioning_none)
    then show ?thesis using that None by (simp add: cond_ok_def exists_def)
  next
    case (Some k)
    then have k: "0 < k" "labels_ok k b classes" "params s (''null_classes_emb'', []) = [a_dim a]"
      using inp by (simp_all add: unet_input_ok_def)
    have "fst (Unet_conditioning torch_shape net b classes p s) = Inr (Some [b, a_dim a * 4])"
      apply (rule Unet_conditioning_shape(1)[where k = k and d = "a_dim a"])
      using F(3,4,5,6) Some k by (simp_all add: exists_def)
    then show ?thesis using that Some by (simp add: cond_ok_def exists_def)
  qed
  have main: "yields (Unet_main torch_shape net b [b, c, h, w] time cv)
            ([b, default (a_out_dim a) (a_channels a), h, w], [])"
    unfolding c by (rule Unet_main_shape[OF init ok h w dh dw time cok])
  have aux: "fst (Unet_forward_aux torch_shape net [b, c, h, w] time classes p s)
            = Inr ([b, default (a_out_dim a) (a_channels a), h, w], [])"
    apply (simp only: Unet_forward_aux_def torch_shape_fields list.case)
    apply (rule fst_bindM[where a = cv])
     apply (rule cv)
    apply (rule main)
    done
  show ?thesis
    unfolding Unet_forward_def
    apply (rule fst_bindM[where a = "([b, default (a_out_dim a) (a_channels a), h, w], [])"])
     apply (rule aux)
    apply (simp add: yields_returnM)
    done
qed

lemma mapE_ok:
  assumes "\<And>x. x \<in> set xs \<Longrightarrow> \<exists>y. f x = Inr y"
  shows "\<exists>ys. mapE f xs = Inr ys"
  using assms
proof (induction xs)
  case Nil
  then show ?case by simp
next
  case (Cons x xs)
  obtain y where y: "f x = Inr y" using Cons.prems[of x] by auto
  obtain ys where ys: "mapE f xs = Inr ys" using Cons.IH Cons.prems by auto
  show ?case by (simp add: y ys bindE_def)
qed

lemma ResnetBlock_init_ok: "0 < g \<Longrightarrow> \<exists>rb. ResnetBlock_init i out t c g = Inr rb"
  by (simp add: ResnetBlock_init_def Block_init_eq bindE_def Let_def)

lemma Attention_init_ok:
  assumes "fl \<longrightarrow> \<not> version_less (torch_version E) (2, 0, 0)"
  shows "\<exists>m. Attention_init E d nh dh fl = Inr m"
  using assms by (auto simp: Attention_init_def Attend_init_def bindE_def Let_def)

lemma LinearAttention_init_ok: "0 < dh \<Longrightarrow> \<exists>m. LinearAttention_init d nh dh = Inr m"
  by (simp add: LinearAttention_init_def Let_def)

lemma attn_class_ok:
  assumes "fl \<longrightarrow> \<not> version_less (torch_version E) (2, 0, 0)" "0 < dh"
  shows "\<exists>m. attn_class E fl f d dh nh = Inr m"
  using assms Attention_init_ok[OF assms(1)] LinearAttention_init_ok[OF assms(2)]
  by (simp add: attn_class_def)

lemma down_stage_ok:
  assumes "fl \<longrightarrow> \<not> version_less (torch_version E) (2, 0, 0)" "0 < dh" "0 < g"
  shows "\<exists>st. down_stage E fl (\<lambda>i out. ResnetBlock_init i out t c g) N (i, (din, dout), f, nh, dh) = Inr st"
proof -
  obtain rb where rb: "ResnetBlock_init din din t c g = Inr rb"
    using ResnetBlock_init_ok[OF assms(3)] by blast
  obtain m where m: "attn_class E fl f din dh nh = Inr m"
    using attn_class_ok[OF assms(1,2)] by blast
  show ?thesis by (simp add: down_stage_def rb m bindE_def)
qed

lemma up_stage_ok:
  assumes "fl \<longrightarrow> \<not> version_less (torch_version E) (2, 0, 0)" "0 < dh" "0 < g"
  shows "\<exists>st. up_stage E fl (\<lambda>i out. ResnetBlock_init i out t c g) N (i, (din, dout), f, nh, dh) = Inr st"
proof -
  obtain rb where rb: "ResnetBlock_init (dout + din) dout t c g = Inr rb"
    using ResnetBlock_init_ok[OF assms(3)] by blast
  obtain m where m: "attn_class E fl f dout dh nh = Inr m"
    using attn_class_ok[OF assms(1,2)] by blast
  show ?thesis by (simp add: up_stage_def rb m bindE_def)
qed

lemma stages_ok:
  assumes fl: "fl \<longrightarrow> \<not> version_less (torch_version E) (2, 0, 0)" and g: "0 < g"
    and pos: "list_all (\<lambda>(f, nh, dh). 0 < dh) ts"
  shows "\<exists>ds. mapE (down_stage E fl (\<lambda>i out. ResnetBlock_init i out t c g) N)
                 (enumerate_list (zip io ts)) = Inr ds"
    and "\<exists>us. mapE (up_stage E fl (\<lambda>i out. ResnetBlock_init i out t c g) N)
                 (enumerate_list (zip io ts)) = Inr us"
proof -
  have el: "\<exists>i din dout f nh dh. x = (i, (din, dout), f, nh, dh) \<and> 0 < dh"
    if "x \<in> set (enumerate_list (zip io ts))" for x
  proof -
    obtain i din dout f nh dh where x: "x = (i, (din, dout), f, nh, dh)" by (cases x) auto
    have "((din, dout), f, nh, dh) \<in> set (zip io ts)"
      using that unfolding enumerate_list_def x by (rule set_zip_rightD)
    then have "(f, nh, dh) \<in> set ts" by (rule set_zip_rightD)
    then have "0 < dh" using pos by (auto simp: list_all_iff)
    then show ?thesis using x by blast
  qed
  show "\<exists>ds. mapE (down_stage E fl (\<lambda>i out. ResnetBlock_init i out t c g) N)
                 (enumerate_list (zip io ts)) = Inr ds"
    apply (rule mapE_ok)
    using el down_stage_ok[OF fl _ g] by blast
  show "\<exists>us. mapE (up_stage E fl (\<lambda>i out. ResnetBlock_init i out t c g) N)
                 (enumerate_list (zip io ts)) = Inr us"
    apply (rule mapE_ok)
    using el up_stage_ok[OF fl _ g] by blast
qed

lemma Unet_init_ok:
  assumes ok: "unet_args_ok E a"
  shows "\<exists>net. Unet_init E a = Inr net"
proof -
  define n where "n = length (a_dim_mults a)"
  define dims where "dims = a_dim a # map (\<lambda>m. a_dim a * m) (a_dim_mults a)"
  define cdim where "cdim = (if exists (a_num_classes a) then Some (a_dim a * 4) else None)"
  define fa where "fa = cast_tuple (a_full_attn a) n"
  define ah where "ah = cast_tuple (a_attn_heads a) n"
  define ad where "ad = cast_tuple (a_attn_dim_head a) n"
  define io where "io = zip (butlast dims) (tl dims)"
  define g where "g = a_resnet_block_groups a"
  define fl where "fl = a_flash_attn a"
  have idim: "default (a_init_dim a) (a_dim a) = a_dim a"
    using ok by (auto simp: unet_args_ok_def default_def)
  have rl: "(a_learned_sinusoidal_cond a \<or> a_random_fourier_features a) = False"
    using ok by (simp add: unet_args_ok_def)
  have npos: "0 < n" and g: "0 < g"
    and flok: "fl \<longrightarrow> \<not> version_less (torch_version E) (2, 0, 0)"
    using ok by (simp_all add: unet_args_ok_def n_def g_def fl_def)
  have lfa: "(length fa \<noteq> n) = False"
    using ok by (auto simp: unet_args_ok_def fa_def n_def cast_tuple_def split: scalar_or_tuple.splits)
  have hok: "attn_list_ok n (a_attn_heads a)" and dok: "attn_list_ok n (a_attn_dim_head a)"
    using ok by (simp_all add: unet_args_ok_def n_def)
  have lah: "length ah = n" using cast_tuple_ok[OF hok] by (simp add: ah_def)
  have lad: "length ad = n" and pad: "list_all (\<lambda>v. 0 < v) ad"
    using cast_tuple_ok[OF dok] by (simp_all add: ad_def)
  have ne: "ah \<noteq> []" "ad \<noteq> []" using lah lad npos by auto
  have li: "last_item ah = Inr (last ah)" "last_item ad = Inr (last ad)"
    using ne by (simp_all add: last_item_def)
  have pts: "list_all (\<lambda>(f, nh, dh). 0 < dh) (zip fa (zip ah ad))" by (rule zip3_pos2[OF pad])
  have prts: "list_all (\<lambda>(f, nh, dh). 0 < dh) (zip (rev fa) (zip (rev ah) (rev ad)))"
    by (rule zip3_pos2) (use pad in \<open>simp add: list_all_iff\<close>)
  obtain ds where ds: "mapE (down_stage E fl (\<lambda>i out. ResnetBlock_init i out (Some (a_dim a * 4)) cdim g)
        (length io)) (enumerate_list (zip io (zip fa (zip ah ad)))) = Inr ds"
    using stages_ok(1)[OF flok g pts] by blast
  obtain us where us: "mapE (up_stage E fl (\<lambda>i out. ResnetBlock_init i out (Some (a_dim a * 4)) cdim g)
        (length io)) (enumerate_list (zip (rev io) (zip (rev fa) (zip (rev ah) (rev ad))))) = Inr us"
    using stages_ok(2)[OF flok g prts] by blast
  obtain mb where mb: "ResnetBlock_init (last dims) (last dims) (Some (a_dim a * 4)) cdim g = Inr mb"
    using ResnetBlock_init_ok[OF g] by blast
  obtain ma where ma: "Attention_init E (last dims) (last ah) (last ad) fl = Inr ma"
    using Attention_init_ok[OF flok] by blast
  obtain fr where fr: "ResnetBlock_init (a_dim a * 2) (a_dim a) (Some (a_dim a * 4)) cdim g = Inr fr"
    using ResnetBlock_init_ok[OF g] by blast
  note U = Unet_init_def[of E a, unfolded Let_def idim rl if_False, folded dims_def n_def,
      folded cdim_def fa_def ah_def ad_def io_def g_def fl_def]
  show ?thesis
    unfolding U
    by (simp only: bindE_Inr prod.case lfa if_False ds mb li ma us fr) blast
qed

lemma LinearResnetBlock_shape:
  assumes c: "cond_ok cdim c b"
  shows "forward_shape (LinearResnetBlock_init i out (Some td) cdim p) [Some [b, i], Some [b, td], c]
           = Inr [b, out]"
proof -
  define mlp where "mlp = Sequential [SiLU, Linear (td + default cdim 0) (out * 2)]"
  define res where "res = (if i \<noteq> out then Linear i out else Identity)"
  have rb: "LinearResnetBlock_init i out (Some td) cdim p =
      LinearResnetBlock mlp (LinearBlock (Linear i out) (LayerNorm out) SiLU (Dropout p))
        (LinearBlock (Linear out out) (LayerNorm out) SiLU (Dropout p)) res"
    by (simp add: LinearResnetBlock_init_def LinearBlock_init_def Let_def default_def mlp_def res_def)
  have emb: "(if exists (Some [b, td]) \<or> exists c then
               bindE (cat_last (List.map_filter (\<lambda>v. v) [Some [b, td], c])) (\<lambda>e.
               bindE (forward_shape mlp [Some e]) (\<lambda>emb. chunk_shapes 2 (length emb - 1) emb))
             else Inr []) = Inr [[b, out], [b, out]]"
  proof (cases cdim)
    case None
    then have "c = None" using c by (simp add: cond_ok_def)
    then show ?thesis using None
      by (simp add: List.map_filter_def cat_last_def cat_shape_def bindE_def mlp_def default_def
          linear_shape_def chunk_shapes_def chunk_sizes_2 exists_def)
  next
    case (Some k)
    then have "c = Some [b, k]" using c by (simp add: cond_ok_def)
    then show ?thesis using Some
      by (simp add: List.map_filter_def cat_last_2 bindE_def mlp_def default_def
          linear_shape_def chunk_shapes_def chunk_sizes_2 exists_def)
  qed
  have res: "forward_shape res [Some [b, i]] = Inr [b, out]"
    by (simp add: res_def linear_shape_def)
  show ?thesis
    unfolding rb
    apply (simp only: forward_shape.simps(16) list.case option.case emb)
    apply (simp add: bindE_def res broadcast_same2 linear_shape_def layer_norm_shape_def modulate2)
    done
qed

lemma run_blocks_shape:
  assumes c: "cond_ok cdim c b" and "hs \<noteq> []"
  shows "yields (run_blocks torch_shape
                   (map (\<lambda>(j, k). LinearResnetBlock_init j k (Some td) cdim p) (zip (butlast hs) (tl hs)))
                   j0 [b, hd hs] [b, td] c)
           [b, last hs]"
  using assms(2)
proof (induction hs arbitrary: j0 rule: induct_list012)
  case 1
  then show ?case by simp
next
  case (2 x)
  then show ?case by (simp add: yields_returnM)
next
  case (3 x y zs)
  have IH: "yields (run_blocks torch_shape
                   (map (\<lambda>(j, k). LinearResnetBlock_init j k (Some td) cdim p) (zip (butlast (y # zs)) (tl (y # zs))))
                   (Suc j0) [b, y] [b, td] c) [b, last (y # zs)]"
    using "3.IH"(2)[of "Suc j0"] by simp
  have z: "zip (butlast (x # y # zs)) (tl (x # y # zs)) = (x, y) # zip (butlast (y # zs)) (tl (y # zs))"
    by simp
  show ?case
    unfolding z list.map prod.case run_blocks.simps
    apply (rule yields_bindM)
     apply (rule yields_callM)
     apply (simp only: list.sel)
     apply (rule LinearResnetBlock_shape[OF c])
    using IH apply simp
    done
qed

lemma LinearNetwork_conditioning_shape:
  assumes cm: "is_conditional_model net" and cd: "cond_dim net = Some k"
    and ce: "cond_emb net = Some (Embedding k d)"
    and cl: "cond_mlp net = Some (Sequential [Linear d (d * 4), GELU, Linear (d * 4) (d * 4)])"
    and k: "0 < k" and par: "params s (''null_classes_emb'', []) = [d]"
    and lab: "labels_ok k b classes"
  shows "fst (LinearNetwork_conditioning torch_shape net b classes p s) = Inr (Some [b, d * 4])"
proof (cases classes)
  case None
  have ir: "in_range k \<lparr>lshape = [b], lvalues = replicate b 0\<rparr>"
    using k by (simp add: in_range_def list_all_iff)
  show ?thesis
    unfolding LinearNetwork_conditioning_def None
    using cm cd ce cl k par ir
    by (simp add: bindM_def returnM_def raiseM_def liftE_def randintM_def randM_def embeddingM_def
        parameterM_def callM_def default_def embedding_shape_def expand_null broadcast_mask
        broadcast_same2 bindE_def linear_shape_def)
next
  case (Some l)
  then have sh: "lshape l = [b] \<or> lshape l = [b, 1]" and ir: "in_range k l"
    using lab by (simp_all add: labels_ok_def)
  have ir': "in_range k (squeeze_last l)" using ir by (simp add: in_range_def squeeze_last_def)
  have sq: "lshape l = [b, 1] \<Longrightarrow> lshape (squeeze_last l) = [b]" by (simp add: squeeze_last_def)
  show ?thesis
    unfolding LinearNetwork_conditioning_def Some
    using cm cd ce cl k par ir ir' sh sq
    by (auto simp: bindM_def returnM_def raiseM_def liftE_def randintM_def randM_def embeddingM_def
        parameterM_def callM_def default_def embedding_shape_def expand_null broadcast_mask
        broadcast_same2 bindE_def linear_shape_def Let_def)
qed

lemma LinearNetwork_conditioning_none:
  assumes "\<not> is_conditional_model net"
  shows "LinearNetwork_conditioning T net b classes p s = (Inr None, s)"
  using assms by (simp add: LinearNetwork_conditioning_def returnM_def)

lemma lin_time_mlp_shape:
  assumes "sd mod 2 = 0"
  shows "forward_shape (Sequential [RandomOrLearnedSinusoidalPosEmb (sd div 2) r, Linear (sd + 1) td, GELU,
                                    Linear td td]) [Some [b, Suc 0]] = Inr [b, td]"
proof -
  have h2: "Suc (sd div 2 + sd div 2) = Suc sd" using assms by presburger
  show ?thesis
    by (simp add: bindE_def broadcast_outer cat_last_2 h2 linear_shape_def)
qed

lemma LinearNetwork_time_shape:
  assumes "lin_time_mlp net = Sequential [RandomOrLearnedSinusoidalPosEmb (sd div 2) r, Linear (sd + 1) td,
             GELU, Linear td td]" "sd mod 2 = 0" "time = [b] \<or> time = [1]"
  shows "yields (LinearNetwork_time torch_shape net b time) [b, td]"
  unfolding LinearNetwork_time_def
  apply (rule yields_bindM)
   apply (rule yields_time[OF assms(3)])
  apply (rule yields_bindM)
   apply (rule yields_liftE)
   apply (simp add: unsqueeze_shape_def)
  apply (rule yields_callM)
  apply (simp only: assms(1))
  apply (rule lin_time_mlp_shape[OF assms(2)])
  done

lemma LinearNetwork_time_params: "params (snd (LinearNetwork_time T net b time s)) = params s"
  by (simp add: LinearNetwork_time_def bindM_def liftE_def returnM_def callM_def
      split: prod.splits sum.splits if_splits)

lemma LinearNetwork_forward_shape:
  assumes init: "LinearNetwork_init a = Inr net"
    and inp: "linear_input_ok a [b, d] time cond s"
  shows "fst (LinearNetwork_forward torch_shape net [b, d] time cond p s) = Inr [b, d]"
proof -
  define cdim where "cdim = (if exists (l_cond_dim a) then Some (l_dim a * 4) else None)"
  have ev: "l_sin_dim a mod 2 = 0"
    using init by (auto simp: LinearNetwork_init_def RandomOrLearnedSinusoidalPosEmb_init_def bindE_def
        Let_def split: if_splits)
  have net: "net = \<lparr>cond_dim = l_cond_dim a, is_conditional_model = exists (l_cond_dim a),
              lin_time_mlp = Sequential [RandomOrLearnedSinusoidalPosEmb (l_sin_dim a div 2) (l_random_time_emb a),
                 Linear (l_sin_dim a + 1) (l_time_dim a), GELU, Linear (l_time_dim a) (l_time_dim a)],
              lin_cond_drop_prob = (if exists (l_cond_dim a) then l_cond_drop_prob a else 1),
              cond_emb = (case l_cond_dim a of Some n \<Rightarrow> Some (Embedding n (l_dim a)) | None \<Rightarrow> None),
              cond_mlp = (if exists (l_cond_dim a)
                       then Some (Sequential [Linear (l_dim a) (l_dim a * 4), GELU,
                                              Linear (l_dim a * 4) (l_dim a * 4)])
                       else None),
              blocks = map (\<lambda>(j, k). LinearResnetBlock_init j k (Some (l_time_dim a)) cdim (l_dropout_p a))
                      (zip (butlast (l_dim a # l_hidden_dims a)) (tl (l_dim a # l_hidden_dims a))),
              final_proj = Linear (last (l_dim a # l_hidden_dims a)) (l_dim a)\<rparr>"
    using init ev unfolding LinearNetwork_init_def RandomOrLearnedSinusoidalPosEmb_init_def Let_def cdim_def
    by (simp only: bindE_Inr if_False sum.inject simp_thms)
  have d: "d = l_dim a" and time: "time = [b] \<or> time = [1]"
    using inp by (simp_all add: linear_input_ok_def)
  have tm: "yields (LinearNetwork_time torch_shape net b time) [b, l_time_dim a]"
    by (rule LinearNetwork_time_shape[OF _ ev time]) (simp add: net)
  obtain s1 where s1: "LinearNetwork_time torch_shape net b time s = (Inr [b, l_time_dim a], s1)"
    using tm by (cases "LinearNetwork_time torch_shape net b time s") (auto simp: yields_def dest: spec[of _ s])
  have ps1: "params s1 = params s"
    using LinearNetwork_time_params[of torch_shape net b time s] s1 by simp
  obtain cv where cv: "fst (LinearNetwork_conditioning torch_shape net b cond p s1) = Inr cv"
    and cok: "cond_ok cdim cv b"
  proof (cases "l_cond_dim a")
    case None
    then have "\<not> is_conditional_model net" by (simp add: net exists_def)
    then have "fst (LinearNetwork_conditioning torch_shape net b cond p s1) = Inr None"
      by (simp add: LinearNetwork_conditioning_none)
    then show ?thesis using that None by (simp add: cond_ok_def exists_def cdim_def)
  next
    case (Some k)
    then have k: "0 < k" "labels_ok k b cond" "params s1 (''null_classes_emb'', []) = [l_dim a]"
      using inp ps1 by (simp_all add: linear_input_ok_def)
    have "fst (LinearNetwork_conditioning torch_shape net b cond p s1) = Inr (Some [b, l_dim a * 4])"
      apply (rule LinearNetwork_conditioning_shape[where k = k and d = "l_dim a"])
      using Some k by (simp_all add: net exists_def)
    then show ?thesis using that Some by (simp add: cond_ok_def exists_def cdim_def)
  qed
  have rb: "yields (run_blocks torch_shape (blocks net) 0 [b, l_dim a] [b, l_time_dim a] cv)
              [b, last (l_dim a # l_hidden_dims a)]"
    using run_blocks_shape[OF cok, of "l_dim a # l_hidden_dims a" "l_time_dim a" "l_dropout_p a" 0]
    by (simp add: net)
  have rest: "yields (let x_res = [b, d] in
          bindM (run_blocks torch_shape (blocks net) 0 [b, d] [b, l_time_dim a] cv) (\<lambda>x.
          bindM (callM torch_shape (''final_proj'', []) (final_proj net) [Some x]) (\<lambda>x.
          liftE (add torch_shape x x_res)))) [b, d]"
    unfolding Let_def
    apply (rule yields_bindM)
     apply (simp only: d)
     apply (rule rb)
    apply (rule yields_bindM)
     apply (rule yields_callM)
     apply (simp add: net linear_shape_def)
    apply (rule yields_liftE)
    apply (simp add: d broadcast_same2)
    done
  have "fst (bindM (LinearNetwork_conditioning torch_shape net b cond p) (\<lambda>c.
          let x_res = [b, d] in
          bindM (run_blocks torch_shape (blocks net) 0 [b, d] [b, l_time_dim a] c) (\<lambda>x.
          bindM (callM torch_shape (''final_proj'', []) (final_proj net) [Some x]) (\<lambda>x.
          liftE (add torch_shape x x_res)))) s1) = Inr [b, d]"
    apply (rule fst_bindM[where a = cv])
     apply (rule cv)
    apply (rule rest)
    done
  then show ?thesis
    unfolding LinearNetwork_forward_def
    by (simp only: torch_shape_fields list.case
        bindM_apply_Inr[where m = "LinearNetwork_time torch_shape net b time" and s = s, OF s1])
qed

lemma post_returnM: "P x \<Longrightarrow> post (returnM x) P"
  by (simp add: post_def returnM_def)

lemma post_liftE: "(\<And>x. r = Inr x \<Longrightarrow> P x) \<Longrightarrow> post (liftE r) P"
  by (simp add: post_def liftE_def)

lemma post_bindM:
  assumes "post m Q" and "\<And>a. Q a \<Longrightarrow> post (f a) P"
  shows "post (bindM m f) P"
proof -
  have "P r" if "bindM m f s = (Inr r, s')" for s r s'
  proof -
    obtain r1 s1 where ms: "m s = (r1, s1)" by (cases "m s")
    show ?thesis
    proof (cases r1)
      case (Inl e)
      then show ?thesis using that ms by (simp add: bindM_def)
    next
      case (Inr a)
      then have "Q a" using assms(1) ms by (auto simp: post_def)
      moreover have "f a s1 = (Inr r, s')" using that ms Inr by (simp add: bindM_def)
      ultimately show ?thesis using assms(2)[of a] by (auto simp: post_def)
    qed
  qed
  then show ?thesis by (auto simp: post_def)
qed

lemma post_True: "post m (\<lambda>_. True)"
  by (simp add: post_def)

lemma post_bindM': "(\<And>a. post (f a) P) \<Longrightarrow> post (bindM m f) P"
  by (rule post_bindM[OF post_True])

lemma post_pop: "post (liftE (pop h)) (\<lambda>(x, h'). length h = Suc (length h'))"
  by (rule post_liftE) (auto simp: pop_def split: if_splits)

lemma encoder_length:
  "post (encoder T stages i x time c h) (\<lambda>(y, h'). length h' = length h + 2 * length stages)"
proof (induction T stages i x time c h rule: encoder.induct)
  case (1 T i x time c h)
  show ?case by (simp add: post_returnM)
next
  case (2 T block1 block2 attn down rest i x time c h)
  have IH: "post (encoder T rest (Suc i) x5 time c ((h @ [x1]) @ [x4]))
              (\<lambda>(y, h'). length h' = length h + 2 * length ((block1, block2, attn, down) # rest))"
    for x1 x4 x5
    using "2.IH"[OF refl refl] by simp
  show ?case
    unfolding encoder.simps Let_def
    by (intro post_bindM' IH)
qed

lemma decoder_length:
  "post (decoder T stages i x time c h) (\<lambda>(y, h'). length h' + 2 * length stages = length h)"
proof (induction T stages i x time c h rule: decoder.induct)
  case (1 T i x time c h)
  show ?case by (simp add: post_returnM)
next
  case (2 T block1 block2 attn up rest i x time c h)
  show ?case
    unfolding decoder.simps
    apply (rule post_bindM[OF post_pop])
    apply (simp only: split_paired_all prod.case)
    apply (rule post_bindM')
    apply (rule post_bindM')
    apply (rule post_bindM[OF post_pop])
    apply (simp only: split_paired_all prod.case)
    apply (intro post_bindM')
    subgoal premises prems for s1 h1 x2 x3 s2 h2 x5 x6 y7 x8 x9
    proof -
      have "post (decoder T rest (Suc i) x9 time c h2)
              (\<lambda>(y, h'). length h' + 2 * length rest = length h2)"
        by (rule "2.IH")
      then show ?thesis using prems by (auto simp: post_def)
    qed
    done
qed

section \<open>The claims\<close>

lemma unet_small_ok: "unet_args_ok env_torch2 unet_small"
  by (simp add: unet_args_ok_def unet_small_def env_torch2_def attn_list_ok_def)

lemma unet_small_input:
  "unet_input_ok unet_small [2, 3, 8, 8] [2] (Some labels_small) state_small"
  by (simp add: unet_input_ok_def unet_small_def labels_ok_def labels_small_def in_range_def
      state_small_def)

lemma linear_small_init: "\<exists>net. LinearNetwork_init linear_small = Inr net"
  by (simp add: LinearNetwork_init_def linear_small_def RandomOrLearnedSinusoidalPosEmb_init_def
      bindE_def Let_def)

lemma linear_small_input:
  "linear_input_ok linear_small [2, 2] [2] (Some labels_small) state_linear"
  by (simp add: linear_input_ok_def linear_small_def labels_ok_def labels_small_def in_range_def
      state_linear_def)



lemma unet_small_out_ok: "unet_args_ok env_torch2 (unet_small\<lparr>a_out_dim := Some 6\<rparr>)"
  by (simp add: unet_args_ok_def unet_small_def env_torch2_def attn_list_ok_def)

lemma unet_small_out_input:
  "unet_input_ok (unet_small\<lparr>a_out_dim := Some 6\<rparr>) [2, 3, 8, 8] [2] (Some labels_small) state_small"
  by (simp add: unet_input_ok_def unet_small_def labels_ok_def labels_small_def in_range_def
      state_small_def)



text \<open>C2\<close>

theorem guidance_identity:
  "forward_with_cond_scale T forward args 1 rescaled_phi = forward args (Some 0) \<and>
   Unet_forward_with_cond_scale T net x time classes 1 rescaled_phi
     = Unet_forward T net x time classes (Some 0) \<and>
   LinearNetwork_forward_with_cond_scale T lnet x time classes 1 rescaled_phi
     = LinearNetwork_forward T lnet x time classes (Some 0)"
  by (simp add: forward_with_cond_scale_def Unet_forward_with_cond_scale_def
      LinearNetwork_forward_with_cond_scale_def bindM_returnM)

text \<open>C3\<close>

theorem guidance_scaled:
  assumes "cond_scale \<noteq> 1"
  shows "forward_with_cond_scale T forward args cond_scale rescaled_phi =
     bindM (forward args (Some 0)) (\<lambda>logitsCond.
     bindM (forward args (Some 1)) (\<lambda>logitsUncond.
     liftE (guidance_combine T logitsCond logitsUncond cond_scale rescaled_phi)))"
  using assms
  apply (simp add: forward_with_cond_scale_def guidance_combine_def fun_eq_iff)
  apply (auto simp: bindM_def liftE_def bindE_def returnM_def Let_def split: prod.splits sum.splits)
  done

theorem guidance_scaled_witness:
  "(\<forall>net. Unet_forward_with_cond_scale torch_shape net [2, 3, 8, 8] [2] None 2 (1 / 2) =
      bindM (Unet_forward torch_shape net [2, 3, 8, 8] [2] None (Some 0)) (\<lambda>logitsCond.
      bindM (Unet_forward torch_shape net [2, 3, 8, 8] [2] None (Some 1)) (\<lambda>logitsUncond.
      liftE (guidance_combine torch_shape logitsCond logitsUncond 2 (1 / 2))))) \<and>
   guidance_combine torch_shape [2, 3, 8, 8] [2, 3, 8, 8] 2 (1 / 2) = Inr [2, 3, 8, 8] \<and>
   guidance_combine torch_shape [2, 3, 8, 8] [2, 3, 8, 8] 2 0 = Inr [2, 3, 8, 8]"
proof -
  have "Unet_forward_with_cond_scale torch_shape net [2, 3, 8, 8] [2] None 2 (1 / 2) =
      bindM (Unet_forward torch_shape net [2, 3, 8, 8] [2] None (Some 0)) (\<lambda>logitsCond.
      bindM (Unet_forward torch_shape net [2, 3, 8, 8] [2] None (Some 1)) (\<lambda>logitsUncond.
      liftE (guidance_combine torch_shape logitsCond logitsUncond 2 (1 / 2))))" for net
    using guidance_scaled[of 2 torch_shape
        "\<lambda>(x, time, classes) p. Unet_forward torch_shape net x time classes p"
        "([2, 3, 8, 8], [2], None)" "1 / 2"]
    by (simp add: Unet_forward_with_cond_scale_def)
  moreover have "guidance_combine torch_shape [2, 3, 8, 8] [2, 3, 8, 8] 2 (1 / 2) = Inr [2, 3, 8, 8]"
    by (simp add: guidance_combine_def torch_shape_def bindE_def broadcast_def Let_def)
  moreover have "guidance_combine torch_shape [2, 3, 8, 8] [2, 3, 8, 8] 2 0 = Inr [2, 3, 8, 8]"
    by (simp add: guidance_combine_def torch_shape_def bindE_def broadcast_def Let_def)
  ultimately show ?thesis by blast
qed

text \<open>C9\<close>

theorem forward_preserves_parameters:
  "params (snd (Unet_forward T net x time classes p s)) = params s \<and>
   params (snd (LinearNetwork_forward T lnet x time classes p s)) = params s \<and>
   params (snd (Unet_forward_with_cond_scale T net x time classes cond_scale phi s)) = params s \<and>
   params (snd (LinearNetwork_forward_with_cond_scale T lnet x time classes cond_scale phi s))
     = params s"
proof -
  have "frame (Unet_forward T net x time classes p)"
    by (rule frame_Unet_forward)
  moreover have "frame (LinearNetwork_forward T lnet x time classes p)"
    by (rule frame_LinearNetwork_forward)
  moreover have "frame (Unet_forward_with_cond_scale T net x time classes cond_scale phi)"
    unfolding Unet_forward_with_cond_scale_def
    by (rule frame_forward_with_cond_scale) (simp add: frame_Unet_forward split: prod.splits)
  moreover have "frame (LinearNetwork_forward_with_cond_scale T lnet x time classes cond_scale phi)"
    unfolding LinearNetwork_forward_with_cond_scale_def
    by (rule frame_forward_with_cond_scale) (simp add: frame_LinearNetwork_forward split: prod.splits)
  ultimately show ?thesis by (simp add: frame_def)
qed


text \<open>C6\<close>

theorem label_shape_normalization:
  "Unet_forward T net x time (Some \<lparr>lshape = [b, 1], lvalues = v\<rparr>) p
     = Unet_forward T net x time (Some \<lparr>lshape = [b], lvalues = v\<rparr>) p \<and>
   LinearNetwork_forward T lnet x time (Some \<lparr>lshape = [b, 1], lvalues = v\<rparr>) p
     = LinearNetwork_forward T lnet x time (Some \<lparr>lshape = [b], lvalues = v\<rparr>) p \<and>
   (is_conditional_model net \<and> shape_of T x = batch # rest \<and>
    1 < length sh \<and> \<not> (length sh = 2 \<and> last sh = 1) \<longrightarrow>
      Unet_forward T net x time (Some \<lparr>lshape = sh, lvalues = v\<rparr>) p s
        = (Inl (ShapeMismatch batch sh), s)) \<and>
   (is_conditional_model lnet \<and> shape_of T x = batch # rest \<and>
    1 < length sh \<and> \<not> (length sh = 2 \<and> last sh = 1) \<and>
    LinearNetwork_time T lnet batch time s = (Inr tm, s1) \<longrightarrow>
      LinearNetwork_forward T lnet x time (Some \<lparr>lshape = sh, lvalues = v\<rparr>) p s
        = (Inl (ShapeMismatch batch sh), s1))"
proof (intro conjI impI)
  show "Unet_forward T net x time (Some \<lparr>lshape = [b, 1], lvalues = v\<rparr>) p
     = Unet_forward T net x time (Some \<lparr>lshape = [b], lvalues = v\<rparr>) p"
    by (simp only: Unet_forward_def Unet_forward_aux_def Unet_conditioning_squeeze)
  show "LinearNetwork_forward T lnet x time (Some \<lparr>lshape = [b, 1], lvalues = v\<rparr>) p
     = LinearNetwork_forward T lnet x time (Some \<lparr>lshape = [b], lvalues = v\<rparr>) p"
    by (simp only: LinearNetwork_forward_def LinearNetwork_conditioning_squeeze)
next
  assume A: "is_conditional_model net \<and> shape_of T x = batch # rest \<and>
    1 < length sh \<and> \<not> (length sh = 2 \<and> last sh = 1)"
  then have "Unet_conditioning T net batch (Some \<lparr>lshape = sh, lvalues = v\<rparr>) p s
      = (Inl (ShapeMismatch batch sh), s)"
    by (intro Unet_conditioning_bad_shape) simp_all
  then show "Unet_forward T net x time (Some \<lparr>lshape = sh, lvalues = v\<rparr>) p s
        = (Inl (ShapeMismatch batch sh), s)"
    using A by (simp add: Unet_forward_def Unet_forward_aux_def bindM_apply_Inl)
next
  assume A: "is_conditional_model lnet \<and> shape_of T x = batch # rest \<and>
    1 < length sh \<and> \<not> (length sh = 2 \<and> last sh = 1) \<and>
    LinearNetwork_time T lnet batch time s = (Inr tm, s1)"
  then have "LinearNetwork_conditioning T lnet batch (Some \<lparr>lshape = sh, lvalues = v\<rparr>) p s1
      = (Inl (ShapeMismatch batch sh), s1)"
    by (intro LinearNetwork_conditioning_bad_shape) simp_all
  then show "LinearNetwork_forward T lnet x time (Some \<lparr>lshape = sh, lvalues = v\<rparr>) p s
        = (Inl (ShapeMismatch batch sh), s1)"
    using A by (simp add: LinearNetwork_forward_def bindM_apply_Inl bindM_apply_Inr)
qed

lemma linear_small_net:
  assumes "LinearNetwork_init linear_small = Inr lnet"
  shows "is_conditional_model lnet"
    and "\<exists>s1. LinearNetwork_time torch_shape lnet 2 [2] state_linear = (Inr [2, 16], s1)"
proof -
  show "is_conditional_model lnet"
    using assms
    by (auto simp: LinearNetwork_init_def linear_small_def RandomOrLearnedSinusoidalPosEmb_init_def
        bindE_def Let_def exists_def)
  have "lin_time_mlp lnet = Sequential [RandomOrLearnedSinusoidalPosEmb (16 div 2) False,
          Linear (16 + 1) 16, GELU, Linear 16 16]"
    using assms
    by (auto simp: LinearNetwork_init_def linear_small_def RandomOrLearnedSinusoidalPosEmb_init_def
        bindE_def Let_def exists_def)
  then have "yields (LinearNetwork_time torch_shape lnet 2 [2]) [2, 16]"
    by (rule LinearNetwork_time_shape) simp_all
  then have "fst (LinearNetwork_time torch_shape lnet 2 [2] state_linear) = Inr [2, 16]"
    by (simp add: yields_def)
  then show "\<exists>s1. LinearNetwork_time torch_shape lnet 2 [2] state_linear = (Inr [2, 16], s1)"
    by (cases "LinearNetwork_time torch_shape lnet 2 [2] state_linear") simp
qed

theorem label_shape_normalization_witness:
  "(case Unet_init env_torch2 unet_small of
      Inl e \<Rightarrow> False
    | Inr net \<Rightarrow>
        Unet_forward torch_shape net [2, 3, 8, 8] [2]
          (Some \<lparr>lshape = [2, 2], lvalues = [1, 2, 3, 4]\<rparr>) None state_small
          = (Inl (ShapeMismatch 2 [2, 2]), state_small)) \<and>
   (case LinearNetwork_init linear_small of
      Inl e \<Rightarrow> False
    | Inr lnet \<Rightarrow>
        fst (LinearNetwork_forward torch_shape lnet [2, 2] [2]
          (Some \<lparr>lshape = [2, 2], lvalues = [1, 2, 3, 4]\<rparr>) None state_linear)
          = Inl (ShapeMismatch 2 [2, 2]))"
proof -
  obtain lnet where l: "LinearNetwork_init linear_small = Inr lnet"
    using linear_small_init by blast
  obtain net where u: "Unet_init env_torch2 unet_small = Inr net"
    using Unet_init_ok[OF unet_small_ok] by blast
  have cu: "is_conditional_model net"
    using Unet_init_fields(3)[OF u unet_small_ok] by (simp add: unet_small_def exists_def)
  obtain s1 where s1: "LinearNetwork_time torch_shape lnet 2 [2] state_linear = (Inr [2, 16], s1)"
    using linear_small_net(2)[OF l] by blast
  have sh: "shape_of torch_shape [2, 3, 8, 8] = 2 # [3, 8, 8]"
    "shape_of torch_shape [2, 2] = 2 # [2]"
    by (simp_all add: torch_shape_def)
  note T1 = label_shape_normalization[where T = torch_shape and net = net and x = "[2, 3, 8, 8]"
      and batch = 2 and rest = "[3, 8, 8]" and sh = "[2, 2]" and time = "[2]"
      and v = "[1, 2, 3, 4]" and p = None and s = state_small]
  note T2 = label_shape_normalization[where T = torch_shape and lnet = lnet and x = "[2, 2]"
      and batch = 2 and rest = "[2]" and sh = "[2, 2]" and time = "[2]"
      and v = "[1, 2, 3, 4]" and p = None and s = state_linear and tm = "[2, 16]" and ?s1.0 = s1]
  have a: "Unet_forward torch_shape net [2, 3, 8, 8] [2]
          (Some \<lparr>lshape = [2, 2], lvalues = [1, 2, 3, 4]\<rparr>) None state_small
          = (Inl (ShapeMismatch 2 [2, 2]), state_small)"
    using T1 cu sh(1) by simp
  have b: "LinearNetwork_forward torch_shape lnet [2, 2] [2]
          (Some \<lparr>lshape = [2, 2], lvalues = [1, 2, 3, 4]\<rparr>) None state_linear
          = (Inl (ShapeMismatch 2 [2, 2]), s1)"
    using T2 linear_small_net(1)[OF l] sh(2) s1 by simp
  show ?thesis using a b l u by simp
qed




end
